theory Spec2Isabelle
  imports Complex_Main "HOL-Library.AList" "HOL-Library.Multiset"
begin

section \<open>Dates, floats and Python errors\<close>

text \<open>
  The screening code of \<^verbatim>\<open>automation.py\<close> works on expiration dates given as
  \<^verbatim>\<open>"%Y-%m-%d"\<close> strings. Both providers deliver them in that canonical form, on
  which \<^verbatim>\<open>strptime\<close> and \<^verbatim>\<open>strftime\<close> are inverse to each other and the
  order of the strings is the order of the dates. A date is therefore modelled by its
  ordinal (the day number of \<^verbatim>\<open>date.toordinal()\<close>): \<^verbatim>\<open>timedelta(days=45)\<close>
  adds 45 and \<^verbatim>\<open>(a - b).days\<close> is the difference. \<^verbatim>\<open>datetime.today()\<close>
  is a parameter \<open>today\<close> of every function that reads it; one run reads one date.
\<close>

type_synonym date = int

text \<open>
  The exceptions that the modelled code raises from its data. A \<^verbatim>\<open>ValueError\<close>
  carries its message, as the two \<^verbatim>\<open>raise ValueError(...)\<close> of the source differ
  only there.
\<close>

datatype error = ValueError string | IndexError | KeyError | ZeroDivisionError

text \<open>
  Floating-point numbers are idealised as reals: rounding is not modelled. A float that
  may be \<^verbatim>\<open>nan\<close> or infinite is a \<open>real option\<close>, with \<open>None\<close> for every value that is
  not a finite number; arithmetic on it yields \<open>None\<close> as soon as an operand is \<open>None\<close>.
\<close>

type_synonym npfloat = "real option"

definition fl2 :: "(real \<Rightarrow> real \<Rightarrow> real) \<Rightarrow> npfloat \<Rightarrow> npfloat \<Rightarrow> npfloat" where
  "fl2 f a b = (case a of None \<Rightarrow> None | Some x \<Rightarrow> (case b of None \<Rightarrow> None | Some y \<Rightarrow> Some (f x y)))"

section \<open>Expiration filter: \<^verbatim>\<open>filter_dates\<close>\<close>

text \<open>
  The loop \<^verbatim>\<open>for i, date in enumerate(sorted_dates)\<close>: the third argument is the index
  \<open>i\<close>, the fourth the dates not visited yet. The result is the value of \<^verbatim>\<open>arr\<close> after
  the loop: \<^verbatim>\<open>sorted_dates[:i+1]\<close> at the \<^verbatim>\<open>break\<close>, the initial \<^verbatim>\<open>[]\<close> when the
  loop runs to its end.
\<close>

fun scan_dates :: "date \<Rightarrow> date list \<Rightarrow> nat \<Rightarrow> date list \<Rightarrow> date list" where
  "scan_dates cutoff_date sorted_dates i [] = []"
| "scan_dates cutoff_date sorted_dates i (d # rest) =
     (if d \<ge> cutoff_date then take (i + 1) sorted_dates
      else scan_dates cutoff_date sorted_dates (i + 1) rest)"

definition no_date_msg :: string where
  "no_date_msg = ''No date 45 days or more in the future found.''"

definition filter_dates :: "date \<Rightarrow> date list \<Rightarrow> error + date list" where
  "filter_dates today dates =
     (let cutoff_date = today + 45;
          sorted_dates = sort dates;
          arr = scan_dates cutoff_date sorted_dates 0 sorted_dates
      in if length arr > 0
         then (if hd arr = today then Inr (tl arr) else Inr arr)
         else Inl (ValueError no_date_msg))"

text \<open>
  The contract of the filter in the words of the specification: the ascending prefix that
  ends at the first date on or after the cutoff, without its first element when that is
  today; a failure when no date reaches the cutoff.
\<close>

definition cutoff_prefix :: "date \<Rightarrow> date list \<Rightarrow> date list" where
  "cutoff_prefix cutoff_date dates =
     (let s = sort dates
      in takeWhile (\<lambda>d. d < cutoff_date) s @ take 1 (dropWhile (\<lambda>d. d < cutoff_date) s))"

definition filter_dates_contract :: "date \<Rightarrow> date list \<Rightarrow> error + date list" where
  "filter_dates_contract today dates =
     (if \<exists>d \<in> set dates. today + 45 \<le> d
      then (let p = cutoff_prefix (today + 45) dates
            in if hd p = today then Inr (tl p) else Inr p)
      else Inl (ValueError no_date_msg))"

section \<open>Term structure: \<^verbatim>\<open>build_term_structure\<close>\<close>

text \<open>
  \<^verbatim>\<open>build_term_structure(days, ivs)\<close> returns the closure \<^verbatim>\<open>term_spline\<close> over the
  sorted arrays \<^verbatim>\<open>days\<close> and \<^verbatim>\<open>ivs\<close>. The model returns the two arrays, and
  \<open>term_spline\<close> takes them as its first argument.

  \<^item> \<^verbatim>\<open>np.unique(days)\<close> is the ascending array of the distinct values.
  \<^item> \<^verbatim>\<open>days.argsort()\<close> followed by \<^verbatim>\<open>days[sort_idx]\<close>, \<^verbatim>\<open>ivs[sort_idx]\<close>
    sorts the pairs by day. Equal days are left in input order here; the properties
    of \<open>term_spline\<close> below are stated on the sorted arrays and hold for any order of
    equal days.
  \<^item> \<^verbatim>\<open>ivs[sort_idx]\<close> raises \<^verbatim>\<open>IndexError\<close> when \<^verbatim>\<open>ivs\<close> is shorter than
    \<^verbatim>\<open>days\<close> and ignores the surplus of a longer \<^verbatim>\<open>ivs\<close>.
\<close>

type_synonym term_structure = "real list \<times> real list"

definition np_unique :: "real list \<Rightarrow> real list" where
  "np_unique days = sort (remdups days)"

definition not_enough_msg :: string where
  "not_enough_msg = ''Not enough unique expiry dates to build term structure.''"

definition build_term_structure :: "real list \<Rightarrow> real list \<Rightarrow> error + term_structure" where
  "build_term_structure days ivs =
     (if length (np_unique days) < 2 then Inl (ValueError not_enough_msg)
      else if length ivs < length days then Inl IndexError
      else (let ps = sort_key fst (zip days ivs)
            in Inr (map fst ps, map snd ps)))"

text \<open>
  \<^verbatim>\<open>interp1d(days, ivs, kind='linear', fill_value="extrapolate")\<close> of SciPy, which
  is not part of the repository: with extrapolation requested it evaluates a point by
  \<^verbatim>\<open>searchsorted\<close> (the leftmost insertion index, on ascending input the number of
  entries below the point), clips the index to \<open>1 .. n - 1\<close> and takes the line through
  the entries at \<open>index - 1\<close> and \<open>index\<close>:
  \<^verbatim>\<open>slope = (y_hi - y_lo) / (x_hi - x_lo); y_new = slope*(x_new - x_lo) + y_lo\<close>.
  When the two entries have the same \<open>x\<close> the division by zero yields an infinity or
  \<^verbatim>\<open>nan\<close>, never an exception: the result is not a finite number, \<open>None\<close>.
  The arrays have at least two entries whenever \<open>build_term_structure\<close> succeeded.
\<close>

definition searchsorted :: "real list \<Rightarrow> real \<Rightarrow> nat" where
  "searchsorted xs v = length (takeWhile (\<lambda>x. x < v) xs)"

definition interp1d_linear :: "real list \<Rightarrow> real list \<Rightarrow> real \<Rightarrow> npfloat" where
  "interp1d_linear xs ys x_new =
     (let i = min (max (searchsorted xs x_new) 1) (length xs - 1);
          lo = i - 1;
          hi = i;
          x_lo = xs ! lo;
          x_hi = xs ! hi;
          y_lo = ys ! lo;
          y_hi = ys ! hi
      in if x_hi = x_lo then None
         else Some ((y_hi - y_lo) / (x_hi - x_lo) * (x_new - x_lo) + y_lo))"

fun term_spline :: "term_structure \<Rightarrow> real \<Rightarrow> npfloat" where
  "term_spline (days, ivs) dte =
     (if dte < hd days then Some (hd ivs)
      else if dte > last days then Some (last ivs)
      else interp1d_linear days ivs dte)"

text \<open>
  The reading of the specification under which duplicate horizons are collapsed: of each
  run of equal days in the sorted samples only the last sample is kept, and the curve is
  the one through the samples that remain.
\<close>

fun collapse_last :: "(real \<times> real) list \<Rightarrow> (real \<times> real) list" where
  "collapse_last [] = []"
| "collapse_last [p] = [p]"
| "collapse_last (p # q # ps) =
     (if fst p = fst q then collapse_last (q # ps) else p # collapse_last (q # ps))"

definition collapsed_spline :: "term_structure \<Rightarrow> real \<Rightarrow> npfloat" where
  "collapsed_spline ts dte =
     (let ps = collapse_last (zip (fst ts) (snd ts))
      in term_spline (map fst ps, map snd ps) dte)"

section \<open>Realized volatility: \<^verbatim>\<open>yang_zhang\<close>\<close>

text \<open>
  \<^verbatim>\<open>price_data\<close> is a pandas DataFrame with the columns Open, High, Low, Close and
  Volume, one row per trading day in date order. It is modelled as the list of its rows;
  every entry of a row is a finite number (a row with a gap is not part of the list).
  A pandas Series is a list of floats that may be \<^verbatim>\<open>nan\<close>.

  The pandas and NumPy operations the function uses, which are not part of the repository:
  \<^item> arithmetic of two Series is elementwise and yields \<^verbatim>\<open>nan\<close> where an operand is;
  \<^item> \<^verbatim>\<open>(a / b).apply(np.log)\<close> is a finite number only for \<open>b \<noteq> 0\<close> and \<open>a / b > 0\<close>;
  \<^item> \<^verbatim>\<open>s.shift(1)\<close> moves every entry one row down, puts \<^verbatim>\<open>nan\<close> in the first row and
    drops the last entry;
  \<^item> \<^verbatim>\<open>s.rolling(window=w, center=False).sum()\<close> is, at row \<open>i\<close>, the sum of the \<open>w\<close>
    entries ending at row \<open>i\<close> when there are \<open>w\<close> of them and none is \<^verbatim>\<open>nan\<close>
    (\<^verbatim>\<open>min_periods\<close> defaults to the window size), and \<^verbatim>\<open>nan\<close> otherwise;
  \<^item> \<^verbatim>\<open>np.sqrt\<close> of a negative number is \<^verbatim>\<open>nan\<close>.
  The model is meant for \<open>window \<ge> 2\<close>; the callers use the defaults \<open>window = 30\<close> and
  \<open>trading_periods = 252\<close>, and \<^verbatim>\<open>return_last_only=True\<close>, the only mode modelled.
\<close>

record bar =
  Open :: real
  High :: real
  Low :: real
  Close :: real
  Volume :: real

definition col :: "(bar \<Rightarrow> real) \<Rightarrow> bar list \<Rightarrow> npfloat list" where
  "col f price_data = map (\<lambda>b. Some (f b)) price_data"

definition np_log_ratio :: "real \<Rightarrow> real \<Rightarrow> npfloat" where
  "np_log_ratio a b = (if b \<noteq> 0 \<and> 0 < a / b then Some (ln (a / b)) else None)"

definition s_log_ratio :: "npfloat list \<Rightarrow> npfloat list \<Rightarrow> npfloat list" where
  "s_log_ratio xs ys =
     map2 (\<lambda>x y. case x of None \<Rightarrow> None
                  | Some a \<Rightarrow> (case y of None \<Rightarrow> None | Some b \<Rightarrow> np_log_ratio a b)) xs ys"

definition s_add :: "npfloat list \<Rightarrow> npfloat list \<Rightarrow> npfloat list" where
  "s_add xs ys = map2 (fl2 (+)) xs ys"

definition s_sub :: "npfloat list \<Rightarrow> npfloat list \<Rightarrow> npfloat list" where
  "s_sub xs ys = map2 (fl2 (-)) xs ys"

definition s_mul :: "npfloat list \<Rightarrow> npfloat list \<Rightarrow> npfloat list" where
  "s_mul xs ys = map2 (fl2 (*)) xs ys"

definition s_sq :: "npfloat list \<Rightarrow> npfloat list" where
  "s_sq xs = map (map_option (\<lambda>x. x\<^sup>2)) xs"

definition s_scale :: "real \<Rightarrow> npfloat list \<Rightarrow> npfloat list" where
  "s_scale c xs = map (map_option (\<lambda>x. c * x)) xs"

definition shift1 :: "npfloat list \<Rightarrow> npfloat list" where
  "shift1 xs = (if xs = [] then [] else None # butlast xs)"

fun window_sum :: "npfloat list \<Rightarrow> npfloat" where
  "window_sum [] = Some 0"
| "window_sum (x # xs) = fl2 (+) x (window_sum xs)"

definition rolling_sum :: "nat \<Rightarrow> npfloat list \<Rightarrow> npfloat list" where
  "rolling_sum w xs =
     map (\<lambda>i. if Suc i < w then None else window_sum (take w (drop (Suc i - w) xs)))
       [0..<length xs]"

definition np_sqrt :: "real \<Rightarrow> npfloat" where
  "np_sqrt x = (if 0 \<le> x then Some (sqrt x) else None)"

definition log_ho :: "bar list \<Rightarrow> npfloat list" where
  "log_ho price_data = s_log_ratio (col High price_data) (col Open price_data)"

definition log_lo :: "bar list \<Rightarrow> npfloat list" where
  "log_lo price_data = s_log_ratio (col Low price_data) (col Open price_data)"

definition log_co :: "bar list \<Rightarrow> npfloat list" where
  "log_co price_data = s_log_ratio (col Close price_data) (col Open price_data)"

definition log_oc :: "bar list \<Rightarrow> npfloat list" where
  "log_oc price_data = s_log_ratio (col Open price_data) (shift1 (col Close price_data))"

definition log_cc :: "bar list \<Rightarrow> npfloat list" where
  "log_cc price_data = s_log_ratio (col Close price_data) (shift1 (col Close price_data))"

definition rs :: "bar list \<Rightarrow> npfloat list" where
  "rs price_data =
     s_add (s_mul (log_ho price_data) (s_sub (log_ho price_data) (log_co price_data)))
           (s_mul (log_lo price_data) (s_sub (log_lo price_data) (log_co price_data)))"

definition close_vol :: "nat \<Rightarrow> bar list \<Rightarrow> npfloat list" where
  "close_vol window price_data =
     s_scale (1 / (real window - 1)) (rolling_sum window (s_sq (log_cc price_data)))"

definition open_vol :: "nat \<Rightarrow> bar list \<Rightarrow> npfloat list" where
  "open_vol window price_data =
     s_scale (1 / (real window - 1)) (rolling_sum window (s_sq (log_oc price_data)))"

definition window_rs :: "nat \<Rightarrow> bar list \<Rightarrow> npfloat list" where
  "window_rs window price_data =
     s_scale (1 / (real window - 1)) (rolling_sum window (rs price_data))"

definition yz_k :: "nat \<Rightarrow> real" where
  "yz_k window = 0.34 / (1.34 + (real window + 1) / (real window - 1))"

definition yz_result :: "nat \<Rightarrow> real \<Rightarrow> bar list \<Rightarrow> npfloat list" where
  "yz_result window trading_periods price_data =
     map (\<lambda>v. fl2 (*) (Option.bind v np_sqrt) (np_sqrt trading_periods))
       (s_add (s_add (open_vol window price_data)
                     (s_scale (yz_k window) (close_vol window price_data)))
              (s_scale (1 - yz_k window) (window_rs window price_data)))"

text \<open>
  \<^verbatim>\<open>result.iloc[-1]\<close> raises \<^verbatim>\<open>IndexError\<close> on an empty Series;
  \<^verbatim>\<open>1.0 / (window - 1.0)\<close> raises \<^verbatim>\<open>ZeroDivisionError\<close> for \<open>window = 1\<close>.
\<close>

definition yang_zhang :: "nat \<Rightarrow> real \<Rightarrow> bar list \<Rightarrow> error + npfloat" where
  "yang_zhang window trading_periods price_data =
     (if window = 1 then Inl ZeroDivisionError
      else (let result = yz_result window trading_periods price_data
            in if result = [] then Inl IndexError else Inr (last result)))"

text \<open>
  The estimator in the words of the specification, at the latest of \<open>n\<close> bars: the sums run
  over the last \<open>window\<close> bars, each bar \<open>i\<close> with its predecessor \<open>i - 1\<close>.
\<close>

definition spec_overnight :: "nat \<Rightarrow> bar list \<Rightarrow> real" where
  "spec_overnight window bars =
     (\<Sum>i \<leftarrow> [length bars - window ..< length bars].
         (ln (Open (bars ! i) / Close (bars ! (i - 1))))\<^sup>2) / (real window - 1)"

definition spec_close :: "nat \<Rightarrow> bar list \<Rightarrow> real" where
  "spec_close window bars =
     (\<Sum>i \<leftarrow> [length bars - window ..< length bars].
         (ln (Close (bars ! i) / Close (bars ! (i - 1))))\<^sup>2) / (real window - 1)"

definition spec_rs_term :: "bar \<Rightarrow> real" where
  "spec_rs_term b =
     ln (High b / Open b) * (ln (High b / Open b) - ln (Close b / Open b))
     + ln (Low b / Open b) * (ln (Low b / Open b) - ln (Close b / Open b))"

definition spec_intraday :: "nat \<Rightarrow> bar list \<Rightarrow> real" where
  "spec_intraday window bars =
     (\<Sum>i \<leftarrow> [length bars - window ..< length bars]. spec_rs_term (bars ! i)) / (real window - 1)"

definition spec_variance :: "nat \<Rightarrow> bar list \<Rightarrow> real" where
  "spec_variance window bars =
     spec_overnight window bars + yz_k window * spec_close window bars
       + (1 - yz_k window) * spec_intraday window bars"

definition positive_bar :: "bar \<Rightarrow> bool" where
  "positive_bar b \<longleftrightarrow> 0 < Open b \<and> 0 < High b \<and> 0 < Low b \<and> 0 < Close b"

definition constant_bar :: "real \<Rightarrow> bar \<Rightarrow> bool" where
  "constant_bar c b \<longleftrightarrow> Open b = c \<and> High b = c \<and> Low b = c \<and> Close b = c"

section \<open>Market data of the two providers\<close>

text \<open>
  \<^verbatim>\<open>compute_recommendation\<close> reads everything from two providers, Alpaca (primary) and
  Yahoo Finance (secondary). The record \<open>market\<close> holds what those calls return for the
  ticker of one run; a call that raises or returns nothing is \<open>None\<close> or an empty list.
  The model starts after the ticker was normalised and found non-empty.

  Alpaca: \<^verbatim>\<open>get_alpaca_option_chain\<close> returns a dictionary from expiration date to a
  dictionary from strike to the \<^verbatim>\<open>call\<close> and \<^verbatim>\<open>put\<close> contracts listed there, each
  known by its symbol; \<^verbatim>\<open>get_option_snapshot\<close> maps a symbol to its snapshot with the
  latest quote and the implied volatility, each of which may be missing. Dictionaries are
  association lists in insertion order, with pairwise distinct keys.

  Yahoo: \<^verbatim>\<open>stock.options\<close> is the tuple of expiration dates and
  \<^verbatim>\<open>stock.option_chain(date)\<close> has the two tables \<^verbatim>\<open>calls\<close> and \<^verbatim>\<open>puts\<close>, one row per
  listed contract. A \<^verbatim>\<open>bid\<close> or \<^verbatim>\<open>ask\<close> cell of such a table is a float, \<^verbatim>\<open>nan\<close> where
  Yahoo has no price; it is never \<^verbatim>\<open>None\<close>.
\<close>

datatype quote = Quote (bid_price: "real option") (ask_price: "real option")

datatype snapshot = Snapshot (latest_quote: "quote option") (implied_volatility: "real option")

record strike_legs =
  call :: "string option"
  put :: "string option"

type_synonym alpaca_chain = "(date \<times> (real \<times> strike_legs) list) list"

record option_row =
  strike :: real
  impliedVolatility :: real
  bid :: npfloat
  ask :: npfloat

record yahoo_chain =
  calls :: "option_row list option"
  puts :: "option_row list option"

record market =
  alpaca_option_chain :: alpaca_chain
  alpaca_latest_close :: "real option"
  option_snapshot :: "string \<Rightarrow> snapshot option"
  alpaca_bars :: "bar list"
  yahoo_options :: "date list"
  yahoo_option_chain :: "date \<Rightarrow> yahoo_chain"
  yahoo_last_close :: "real option"
  yahoo_history :: "bar list"

text \<open>
  The two variables that the sampling loops fill: \<^verbatim>\<open>atm_iv\<close> and \<^verbatim>\<open>straddle\<close>. The
  straddle is \<^verbatim>\<open>None\<close> or a float, which under Yahoo may be \<^verbatim>\<open>nan\<close>.
\<close>

record run_state =
  atm_iv :: "(date \<times> real) list"
  straddle :: "npfloat option"

definition init_state :: run_state where
  "init_state = \<lparr>atm_iv = [], straddle = None\<rparr>"

section \<open>Sampling under Alpaca (lines 159 to 199)\<close>

text \<open>
  The inner loop \<^verbatim>\<open>for strike in sorted_strikes\<close>: every \<^verbatim>\<open>continue\<close> goes on with the
  next strike, the \<^verbatim>\<open>break\<close> returns the strike found, and the \<^verbatim>\<open>else\<close> branch of the
  loop (no strike found) is \<open>None\<close>.
\<close>

record atm_hit =
  hit_strike :: real
  call_iv :: real
  put_iv :: real
  call_quote :: quote
  put_quote :: quote

fun walk_strikes :: "(string \<Rightarrow> snapshot option) \<Rightarrow> (real \<times> strike_legs) list \<Rightarrow> atm_hit option" where
  "walk_strikes snap [] = None"
| "walk_strikes snap ((k, legs) # rest) =
     (case call legs of None \<Rightarrow> walk_strikes snap rest
      | Some call_symbol \<Rightarrow>
     (case put legs of None \<Rightarrow> walk_strikes snap rest
      | Some put_symbol \<Rightarrow>
     (case snap call_symbol of None \<Rightarrow> walk_strikes snap rest
      | Some call_snap \<Rightarrow>
     (case snap put_symbol of None \<Rightarrow> walk_strikes snap rest
      | Some put_snap \<Rightarrow>
     (case latest_quote call_snap of None \<Rightarrow> walk_strikes snap rest
      | Some cq \<Rightarrow>
     (case latest_quote put_snap of None \<Rightarrow> walk_strikes snap rest
      | Some pq \<Rightarrow>
     (case implied_volatility call_snap of None \<Rightarrow> walk_strikes snap rest
      | Some civ \<Rightarrow>
     (case implied_volatility put_snap of None \<Rightarrow> walk_strikes snap rest
      | Some piv \<Rightarrow>
          Some \<lparr>hit_strike = k, call_iv = civ, put_iv = piv,
                call_quote = cq, put_quote = pq\<rparr>))))))))"

definition sorted_strikes :: "real \<Rightarrow> (real \<times> strike_legs) list \<Rightarrow> (real \<times> strike_legs) list" where
  "sorted_strikes underlying_price table = sort_key (\<lambda>(s, legs). \<bar>s - underlying_price\<bar>) table"

definition alpaca_straddle :: "quote \<Rightarrow> quote \<Rightarrow> real option" where
  "alpaca_straddle cq pq =
     (case bid_price cq of None \<Rightarrow> None | Some call_bid \<Rightarrow>
     (case ask_price cq of None \<Rightarrow> None | Some call_ask \<Rightarrow>
     (case bid_price pq of None \<Rightarrow> None | Some put_bid \<Rightarrow>
     (case ask_price pq of None \<Rightarrow> None | Some put_ask \<Rightarrow>
        Some ((call_bid + call_ask) / 2 + (put_bid + put_ask) / 2)))))"

definition alpaca_record :: "date \<Rightarrow> atm_hit \<Rightarrow> run_state \<Rightarrow> run_state" where
  "alpaca_record exp_date h st =
     (let st1 = st\<lparr>atm_iv := AList.update exp_date ((call_iv h + put_iv h) / 2) (atm_iv st)\<rparr>
      in if straddle st1 = None
         then st1\<lparr>straddle := map_option Some (alpaca_straddle (call_quote h) (put_quote h))\<rparr>
         else st1)"

text \<open>
  The outer loop \<^verbatim>\<open>for exp_date in exp_dates_filtered\<close>. It returns the state it reached
  and the exception that ended it, if any (\<^verbatim>\<open>option_chain[exp_date]\<close> on a missing key).
\<close>

fun alpaca_sampling :: "market \<Rightarrow> real \<Rightarrow> date list \<Rightarrow> run_state \<Rightarrow> run_state \<times> error option" where
  "alpaca_sampling m underlying_price [] st = (st, None)"
| "alpaca_sampling m underlying_price (exp_date # rest) st =
     (case map_of (alpaca_option_chain m) exp_date of
        None \<Rightarrow> (st, Some KeyError)
      | Some table \<Rightarrow>
          if table = [] then alpaca_sampling m underlying_price rest st
          else (case walk_strikes (option_snapshot m) (sorted_strikes underlying_price table) of
                  None \<Rightarrow> alpaca_sampling m underlying_price rest st
                | Some h \<Rightarrow> alpaca_sampling m underlying_price rest (alpaca_record exp_date h st)))"

section \<open>Sampling under Yahoo (lines 314 to 342)\<close>

text \<open>
  \<^verbatim>\<open>(table['strike'] - underlying_price).abs().idxmin()\<close> is the first row at the least
  distance from the price; the second argument is the best row so far.
\<close>

fun idxmin :: "real \<Rightarrow> option_row \<Rightarrow> option_row list \<Rightarrow> option_row" where
  "idxmin underlying_price best [] = best"
| "idxmin underlying_price best (r # rows) =
     idxmin underlying_price
       (if \<bar>strike r - underlying_price\<bar> < \<bar>strike best - underlying_price\<bar> then r else best) rows"

definition nearest_row :: "real \<Rightarrow> option_row list \<Rightarrow> option_row option" where
  "nearest_row underlying_price table =
     (case table of [] \<Rightarrow> None | r # rows \<Rightarrow> Some (idxmin underlying_price r rows))"

text \<open>
  Lines 327 to 341. The tests \<^verbatim>\<open>is not None\<close> hold for every float, also for \<^verbatim>\<open>nan\<close>:
  at the first sample the straddle is always assigned, and it is \<^verbatim>\<open>nan\<close> when one of
  the four prices is.
\<close>

definition mid :: "npfloat \<Rightarrow> npfloat \<Rightarrow> npfloat" where
  "mid b a = fl2 (\<lambda>x y. (x + y) / 2) b a"

definition yahoo_straddle :: "option_row \<Rightarrow> option_row \<Rightarrow> npfloat" where
  "yahoo_straddle c p = fl2 (+) (mid (bid c) (ask c)) (mid (bid p) (ask p))"

definition yahoo_record :: "date \<Rightarrow> option_row \<Rightarrow> option_row \<Rightarrow> nat \<Rightarrow> run_state \<Rightarrow> run_state" where
  "yahoo_record exp_date c p i st =
     (let st1 = st\<lparr>atm_iv :=
                  AList.update exp_date ((impliedVolatility c + impliedVolatility p) / 2) (atm_iv st)\<rparr>
      in if i = 0 then st1\<lparr>straddle := Some (yahoo_straddle c p)\<rparr> else st1)"

text \<open>
  The loop \<^verbatim>\<open>for exp_date, chain in options_chains.items()\<close> with its counter \<open>i\<close>; a
  missing or empty table skips the expiration without counting it.
\<close>

fun yahoo_sampling :: "real \<Rightarrow> (date \<times> yahoo_chain) list \<Rightarrow> nat \<Rightarrow> run_state \<Rightarrow> run_state" where
  "yahoo_sampling underlying_price [] i st = st"
| "yahoo_sampling underlying_price ((exp_date, chain) # rest) i st =
     (case calls chain of None \<Rightarrow> yahoo_sampling underlying_price rest i st
      | Some cs \<Rightarrow>
     (case puts chain of None \<Rightarrow> yahoo_sampling underlying_price rest i st
      | Some ps \<Rightarrow>
     (case nearest_row underlying_price cs of None \<Rightarrow> yahoo_sampling underlying_price rest i st
      | Some c \<Rightarrow>
     (case nearest_row underlying_price ps of None \<Rightarrow> yahoo_sampling underlying_price rest i st
      | Some p \<Rightarrow>
          yahoo_sampling underlying_price rest (i + 1) (yahoo_record exp_date c p i st)))))"

definition options_chains :: "market \<Rightarrow> date list \<Rightarrow> (date \<times> yahoo_chain) list" where
  "options_chains m exp_dates =
     foldl (\<lambda>d exp_date. AList.update exp_date (yahoo_option_chain m exp_date) d) [] exp_dates"

section \<open>From the samples to the screening flags\<close>

text \<open>
  The code shared by the two paths (lines 205 to 214 and 345 to 354, and the two
  \<^verbatim>\<open>return\<close> statements). The days to expiry are integers; with \<^verbatim>\<open>dtes[0] = 45\<close> both
  operands of the slope are Python floats and the division raises
  \<^verbatim>\<open>ZeroDivisionError\<close>. \<^verbatim>\<open>rv30\<close> is a NumPy float: dividing by a zero \<^verbatim>\<open>rv30\<close> gives an
  infinity or \<^verbatim>\<open>nan\<close>, and a comparison with \<^verbatim>\<open>nan\<close> is false. Prices are not zero.
  \<open>expected_move\<close> is the percentage before it is rounded and rendered; the test
  \<^verbatim>\<open>if straddle\<close> fails for \<^verbatim>\<open>None\<close> and for 0 and holds for \<^verbatim>\<open>nan\<close>, which is rendered
  as \<^verbatim>\<open>"nan%"\<close>, here \<open>Some None\<close>.
\<close>

definition sampled_dtes :: "date \<Rightarrow> (date \<times> real) list \<Rightarrow> int list" where
  "sampled_dtes today samples = map (\<lambda>(exp_date, iv). exp_date - today) samples"

definition sampled_ivs :: "(date \<times> real) list \<Rightarrow> real list" where
  "sampled_ivs samples = map (\<lambda>(exp_date, iv). iv) samples"

definition slope_0_45 :: "term_structure \<Rightarrow> int list \<Rightarrow> error + npfloat" where
  "slope_0_45 ts dtes =
     (case dtes of [] \<Rightarrow> Inl IndexError
      | d0 # rest \<Rightarrow>
          if 45 - d0 = 0 then Inl ZeroDivisionError
          else Inr (map_option (\<lambda>x. x / real_of_int (45 - d0))
                      (fl2 (-) (term_spline ts 45) (term_spline ts (real_of_int d0)))))"

definition latest_avg_volume :: "bar list \<Rightarrow> error + real" where
  "latest_avg_volume history =
     (let means = map (map_option (\<lambda>s. s / 30)) (rolling_sum 30 (col Volume history));
          defined = List.map_filter (\<lambda>x. x) means
      in if defined = [] then Inl IndexError else Inr (last defined))"

record screening =
  avg_volume :: bool
  iv30_rv30 :: bool
  ts_slope_0_45 :: bool
  expected_move :: "npfloat option"

definition iv_rv_flag :: "npfloat \<Rightarrow> npfloat \<Rightarrow> bool" where
  "iv_rv_flag iv30 rv30 =
     (case iv30 of None \<Rightarrow> False
      | Some a \<Rightarrow> (case rv30 of None \<Rightarrow> False
                   | Some b \<Rightarrow> if b = 0 then 0 < a else 1.25 \<le> a / b))"

definition slope_flag :: "npfloat \<Rightarrow> bool" where
  "slope_flag slope = (case slope of None \<Rightarrow> False | Some s \<Rightarrow> s \<le> - 0.00406)"

definition expected_move_of :: "npfloat option \<Rightarrow> real \<Rightarrow> npfloat option" where
  "expected_move_of s underlying_price =
     (case s of None \<Rightarrow> None
      | Some None \<Rightarrow> Some None
      | Some (Some v) \<Rightarrow> if v = 0 then None else Some (Some (v / underlying_price * 100)))"

definition flags :: "term_structure \<Rightarrow> npfloat \<Rightarrow> npfloat \<Rightarrow> real \<Rightarrow> npfloat option \<Rightarrow> real \<Rightarrow> screening" where
  "flags ts slope rv30 volume s underlying_price =
     \<lparr>avg_volume = (1500000 \<le> volume),
      iv30_rv30 = iv_rv_flag (term_spline ts 30) rv30,
      ts_slope_0_45 = slope_flag slope,
      expected_move = expected_move_of s underlying_price\<rparr>"

section \<open>\<^verbatim>\<open>compute_recommendation\<close>\<close>

text \<open>
  The strings that \<^verbatim>\<open>compute_recommendation\<close> returns instead of a result:
  \<^verbatim>\<open>"Error: No options found ..."\<close>, \<^verbatim>\<open>"Error: Not enough option data."\<close>,
  \<^verbatim>\<open>"Error: Unable to retrieve underlying stock price."\<close>,
  \<^verbatim>\<open>"Error: Could not determine ATM IV for any expiration dates."\<close>, and
  \<^verbatim>\<open>f"Error: {e}"\<close> for an exception \<open>e\<close> caught by the outermost handler.
\<close>

datatype failure =
  NoOptionsFound | NotEnoughOptionData | NoUnderlyingPrice | NoAtmIv | Uncaught error

text \<open>
  The Alpaca part of the function (lines 125 to 289) either returns from the function or
  falls through to the Yahoo part, with the variables as they are at that moment. Every
  exception in it is caught and falls through (lines 286 and 288), but a failing
  \<open>filter_dates\<close> returns \<^verbatim>\<open>"Error: Not enough option data."\<close> at once (line 138).
\<close>

datatype stage = Return "failure + screening" | FallThrough run_state

definition underlying :: "market \<Rightarrow> real option" where
  "underlying m = (case alpaca_latest_close m of Some p \<Rightarrow> Some p | None \<Rightarrow> yahoo_last_close m)"

definition alpaca_accept :: "market \<Rightarrow> date \<Rightarrow> real \<Rightarrow> run_state \<Rightarrow> stage" where
  "alpaca_accept m today underlying_price st =
     (let dtes = sampled_dtes today (atm_iv st);
          ivs = sampled_ivs (atm_iv st)
      in case build_term_structure (map real_of_int dtes) ivs of
           Inl e \<Rightarrow> FallThrough st
         | Inr ts \<Rightarrow>
        (case slope_0_45 ts dtes of
           Inl e \<Rightarrow> FallThrough st
         | Inr slope \<Rightarrow>
             if alpaca_bars m \<noteq> [] \<and> 30 \<le> length (alpaca_bars m)
             then (case yang_zhang 30 252 (alpaca_bars m) of
                     Inl e \<Rightarrow> FallThrough st
                   | Inr rv30 \<Rightarrow>
                  (case latest_avg_volume (yahoo_history m) of
                     Inl e \<Rightarrow> FallThrough st
                   | Inr volume \<Rightarrow>
                       Return (Inr (flags ts slope rv30 volume (straddle st) underlying_price))))
             else FallThrough st))"

definition alpaca_stage :: "market \<Rightarrow> date \<Rightarrow> run_state \<Rightarrow> stage" where
  "alpaca_stage m today st =
     (if alpaca_option_chain m = [] then FallThrough st
      else case filter_dates today (sort (map fst (alpaca_option_chain m))) of
             Inl e \<Rightarrow> Return (Inl NotEnoughOptionData)
           | Inr exp_dates_filtered \<Rightarrow>
          (case underlying m of
             None \<Rightarrow> FallThrough st
           | Some underlying_price \<Rightarrow>
               (let (st', raised) = alpaca_sampling m underlying_price exp_dates_filtered st
                in if raised \<noteq> None then FallThrough st'
                   else if 2 \<le> length (atm_iv st')
                   then alpaca_accept m today underlying_price st'
                   else FallThrough st')))"

definition yahoo_stage :: "market \<Rightarrow> date \<Rightarrow> run_state \<Rightarrow> failure + screening" where
  "yahoo_stage m today st =
     (if yahoo_options m = [] then Inl NoOptionsFound
      else case filter_dates today (yahoo_options m) of
             Inl e \<Rightarrow> Inl NotEnoughOptionData
           | Inr exp_dates \<Rightarrow>
          (case yahoo_last_close m of
             None \<Rightarrow> Inl NoUnderlyingPrice
           | Some underlying_price \<Rightarrow>
               (let st1 = yahoo_sampling underlying_price (options_chains m exp_dates) 0
                            (st\<lparr>atm_iv := [], straddle := None\<rparr>);
                    dtes = sampled_dtes today (atm_iv st1);
                    ivs = sampled_ivs (atm_iv st1)
                in if atm_iv st1 = [] then Inl NoAtmIv
                   else case build_term_structure (map real_of_int dtes) ivs of
                          Inl e \<Rightarrow> Inl (Uncaught e)
                        | Inr ts \<Rightarrow>
                       (case slope_0_45 ts dtes of
                          Inl e \<Rightarrow> Inl (Uncaught e)
                        | Inr slope \<Rightarrow>
                       (case yang_zhang 30 252 (yahoo_history m) of
                          Inl e \<Rightarrow> Inl (Uncaught e)
                        | Inr rv30 \<Rightarrow>
                       (case latest_avg_volume (yahoo_history m) of
                          Inl e \<Rightarrow> Inl (Uncaught e)
                        | Inr volume \<Rightarrow>
                            Inr (flags ts slope rv30 volume (straddle st1) underlying_price)))))))"

definition compute_recommendation :: "market \<Rightarrow> date \<Rightarrow> failure + screening" where
  "compute_recommendation m today =
     (case alpaca_stage m today init_state of
        Return r \<Rightarrow> r
      | FallThrough st \<Rightarrow> yahoo_stage m today st)"

text \<open>
  What the Alpaca sampling collected in a run: the content of \<^verbatim>\<open>atm_iv\<close> and
  \<^verbatim>\<open>straddle\<close> when the loop over the filtered expirations is left; nothing when the
  loop is not reached.
\<close>

definition alpaca_filter_fails :: "market \<Rightarrow> date \<Rightarrow> bool" where
  "alpaca_filter_fails m today \<longleftrightarrow>
     alpaca_option_chain m \<noteq> []
     \<and> isl (filter_dates today (sort (map fst (alpaca_option_chain m))))"

definition alpaca_sampled :: "market \<Rightarrow> date \<Rightarrow> run_state" where
  "alpaca_sampled m today =
     (if alpaca_option_chain m = [] then init_state
      else case filter_dates today (sort (map fst (alpaca_option_chain m))) of
             Inl e \<Rightarrow> init_state
           | Inr exp_dates_filtered \<Rightarrow>
          (case underlying m of
             None \<Rightarrow> init_state
           | Some underlying_price \<Rightarrow>
               fst (alpaca_sampling m underlying_price exp_dates_filtered init_state)))"

section \<open>Markets used as examples\<close>

text \<open>
  Dates are day numbers; the examples are run on day 100, so that the expirations 110 and
  150 are 10 and 50 days away. Thirty-one equal bars give a realized volatility of 0.
\<close>

definition quoted_row :: "real \<Rightarrow> real \<Rightarrow> option_row" where
  "quoted_row k iv = \<lparr>strike = k, impliedVolatility = iv, bid = Some 1, ask = Some 2\<rparr>"

definition listed :: "string \<Rightarrow> string \<Rightarrow> strike_legs" where
  "listed c p = \<lparr>call = Some c, put = Some p\<rparr>"

definition liquid_bar :: bar where
  "liquid_bar = \<lparr>Open = 100, High = 100, Low = 100, Close = 100, Volume = 2000000\<rparr>"

text \<open>Nothing from Alpaca; two expirations with one strike each from Yahoo.\<close>

definition yahoo_only :: market where
  "yahoo_only =
     \<lparr>alpaca_option_chain = [],
      alpaca_latest_close = None,
      option_snapshot = (\<lambda>s. None),
      alpaca_bars = [],
      yahoo_options = [110, 150],
      yahoo_option_chain =
        (\<lambda>d. if d = 110
             then \<lparr>calls = Some [quoted_row 100 0.3], puts = Some [quoted_row 100 0.3]\<rparr>
             else \<lparr>calls = Some [quoted_row 100 0.25], puts = Some [quoted_row 100 0.25]\<rparr>),
      yahoo_last_close = Some 100,
      yahoo_history = replicate 31 liquid_bar\<rparr>"

text \<open>The same Yahoo data, and an Alpaca chain whose only expiration is 10 days away.\<close>

definition near_term_only :: market where
  "near_term_only =
     yahoo_only
       \<lparr>alpaca_option_chain := [(110, [(100, listed ''C1'' ''P1'')])],
        alpaca_latest_close := Some 100,
        option_snapshot :=
          map_of [(''C1'', Snapshot (Some (Quote (Some 1) (Some 2))) (Some 0.3)),
                  (''P1'', Snapshot (Some (Quote (Some 1) (Some 2))) (Some 0.3))]\<rparr>"

text \<open>
  An Alpaca chain with two expirations: at the first the call has no bid, at the second
  all four prices are quoted.
\<close>

definition late_quotes :: market where
  "late_quotes =
     yahoo_only
       \<lparr>alpaca_option_chain := [(110, [(100, listed ''C1'' ''P1'')]),
                                (150, [(100, listed ''C2'' ''P2'')])],
        alpaca_latest_close := Some 100,
        option_snapshot :=
          map_of [(''C1'', Snapshot (Some (Quote None (Some 2))) (Some 0.3)),
                  (''P1'', Snapshot (Some (Quote (Some 1) (Some 2))) (Some 0.3)),
                  (''C2'', Snapshot (Some (Quote (Some 3) (Some 5))) (Some 0.25)),
                  (''P2'', Snapshot (Some (Quote (Some 3) (Some 5))) (Some 0.25))],
        alpaca_bars := replicate 31 liquid_bar\<rparr>"

text \<open>
  The Yahoo counterpart of \<open>late_quotes\<close>: at the first expiration the call has no bid
  (\<^verbatim>\<open>nan\<close>), at the second all four prices are quoted.
\<close>

definition unquoted_row :: "real \<Rightarrow> real \<Rightarrow> option_row" where
  "unquoted_row k iv = \<lparr>strike = k, impliedVolatility = iv, bid = None, ask = Some 2\<rparr>"

definition late_quotes_yahoo :: market where
  "late_quotes_yahoo =
     yahoo_only
       \<lparr>yahoo_option_chain :=
          (\<lambda>d. if d = 110
               then \<lparr>calls = Some [unquoted_row 100 0.3], puts = Some [quoted_row 100 0.3]\<rparr>
               else \<lparr>calls = Some [quoted_row 100 0.25], puts = Some [quoted_row 100 0.25]\<rparr>)\<rparr>"

text \<open>
  Yahoo tables of one expiration in which the calls and the puts are listed at different
  strikes; only the strike 95 has both. The market \<open>split_market\<close> has these tables at the
  first expiration.
\<close>

definition split_strikes :: yahoo_chain where
  "split_strikes =
     \<lparr>calls = Some [quoted_row 95 0.2, quoted_row 100 0.3],
      puts = Some [quoted_row 90 0.5, quoted_row 95 0.6]\<rparr>"

definition split_market :: market where
  "split_market =
     yahoo_only
       \<lparr>yahoo_option_chain :=
          (\<lambda>d. if d = 110 then split_strikes
               else \<lparr>calls = Some [quoted_row 100 0.25], puts = Some [quoted_row 100 0.25]\<rparr>)\<rparr>"

text \<open>
  The same listing from Alpaca: at the first expiration a put at 90, a call and a put at
  95 and a call at 100, with the same implied volatilities.
\<close>

definition split_listing :: market where
  "split_listing =
     yahoo_only
       \<lparr>alpaca_option_chain :=
          [(110, [(90, \<lparr>call = None, put = Some ''P90''\<rparr>),
                  (95, listed ''C95'' ''P95''),
                  (100, \<lparr>call = Some ''C100'', put = None\<rparr>)]),
           (150, [(100, listed ''C2'' ''P2'')])],
        alpaca_latest_close := Some 100,
        option_snapshot :=
          map_of [(''P90'', Snapshot (Some (Quote (Some 1) (Some 2))) (Some 0.5)),
                  (''C95'', Snapshot (Some (Quote (Some 1) (Some 2))) (Some 0.2)),
                  (''P95'', Snapshot (Some (Quote (Some 1) (Some 2))) (Some 0.6)),
                  (''C100'', Snapshot (Some (Quote (Some 1) (Some 2))) (Some 0.3)),
                  (''C2'', Snapshot (Some (Quote (Some 1) (Some 2))) (Some 0.25)),
                  (''P2'', Snapshot (Some (Quote (Some 1) (Some 2))) (Some 0.25))],
        alpaca_bars := replicate 31 liquid_bar\<rparr>"

text \<open>The market \<open>late_quotes\<close> with exactly 30 daily bars from Alpaca.\<close>

definition thirty_bars :: market where
  "thirty_bars = late_quotes\<lparr>alpaca_bars := replicate 30 liquid_bar\<rparr>"

text \<open>The market \<open>late_quotes\<close> with only 29 daily bars from either provider.\<close>

definition thin_history :: market where
  "thin_history =
     late_quotes\<lparr>alpaca_bars := replicate 29 liquid_bar,
                  yahoo_history := replicate 29 liquid_bar\<rparr>"

text \<open>
  The market \<open>late_quotes\<close> with snapshots for the contracts of the first expiration only,
  fully quoted: Alpaca yields one sample and a straddle of 8.
\<close>

definition single_sample :: market where
  "single_sample =
     late_quotes
       \<lparr>option_snapshot :=
          map_of [(''C1'', Snapshot (Some (Quote (Some 3) (Some 5))) (Some 0.9)),
                  (''P1'', Snapshot (Some (Quote (Some 3) (Some 5))) (Some 0.9))]\<rparr>"

section \<open>Properties of the expiration filter\<close>

lemma scan_dates_suffix:
  "scan_dates c (pre @ xs) (length pre) xs =
     (if \<exists>d \<in> set xs. c \<le> d
      then pre @ takeWhile (\<lambda>d. d < c) xs @ take 1 (dropWhile (\<lambda>d. d < c) xs)
      else [])"
proof (induction xs arbitrary: pre)
  case Nil
  show ?case by simp
next
  case (Cons x xs)
  show ?case
  proof (cases "c \<le> x")
    case True
    then show ?thesis by simp
  next
    case False
    have "scan_dates c (pre @ x # xs) (length pre) (x # xs)
            = scan_dates c ((pre @ [x]) @ xs) (length (pre @ [x])) xs"
      using False by simp
    also have "\<dots> = (if \<exists>d \<in> set xs. c \<le> d
        then (pre @ [x]) @ takeWhile (\<lambda>d. d < c) xs @ take 1 (dropWhile (\<lambda>d. d < c) xs)
        else [])"
      by (rule Cons.IH)
    finally show ?thesis using False by auto
  qed
qed

lemma scan_dates_prefix:
  "scan_dates c (sort ds) 0 (sort ds) =
     (if \<exists>d \<in> set ds. c \<le> d then cutoff_prefix c ds else [])"
  using scan_dates_suffix [of c "[]" "sort ds"] by (simp add: cutoff_prefix_def Let_def)

lemma dropWhile_below_cutoff:
  assumes "\<exists>d \<in> set ds. c \<le> d"
  shows "dropWhile (\<lambda>d. d < c) (sort ds) \<noteq> []"
proof -
  from assms obtain d where "d \<in> set ds" and "c \<le> d" by blast
  then have "d \<in> set (sort ds)" and "\<not> d < c" by simp_all
  then have "\<exists>d \<in> set (sort ds). \<not> d < c" by blast
  then show ?thesis by (simp add: dropWhile_eq_Nil_conv)
qed

lemma cutoff_prefix_nonempty:
  assumes "\<exists>d \<in> set ds. c \<le> d"
  shows "cutoff_prefix c ds \<noteq> []"
  using dropWhile_below_cutoff [OF assms] by (simp add: cutoff_prefix_def Let_def)

lemma cutoff_prefix_last:
  assumes "\<exists>d \<in> set ds. c \<le> d"
  shows "c \<le> last (cutoff_prefix c ds)"
proof -
  let ?rest = "dropWhile (\<lambda>d. d < c) (sort ds)"
  have ne: "?rest \<noteq> []" using assms by (rule dropWhile_below_cutoff)
  then have "\<not> hd ?rest < c" by (rule hd_dropWhile)
  moreover have "take 1 ?rest = [hd ?rest]" using ne by (cases ?rest) simp_all
  ultimately show ?thesis by (simp add: cutoff_prefix_def Let_def)
qed

text \<open>
  Claim C7. The expiration filter returns the ascending-sorted prefix that ends at the
  first date on or after today + 45 days, without its first element when that element is
  today's date, and it fails with the insufficient-horizon error when no input date
  reaches the cutoff. The prefix never becomes empty by dropping today's date (its last
  element is at least 45 days away), so the filter never returns an empty list.
\<close>

theorem filter_dates_meets_contract:
  "filter_dates today dates = filter_dates_contract today dates
   \<and> filter_dates today dates \<noteq> Inr []"
proof (cases "\<exists>d \<in> set dates. today + 45 \<le> d")
  case False
  then show ?thesis
    by (simp add: filter_dates_def filter_dates_contract_def scan_dates_prefix)
next
  case True
  let ?p = "cutoff_prefix (today + 45) dates"
  have ne: "?p \<noteq> []" using True by (rule cutoff_prefix_nonempty)
  have la: "today + 45 \<le> last ?p" using True by (rule cutoff_prefix_last)
  have eq: "filter_dates today dates = filter_dates_contract today dates"
    using True ne by (simp add: filter_dates_def filter_dates_contract_def scan_dates_prefix)
  have "tl ?p \<noteq> []" if "hd ?p = today"
  proof
    assume "tl ?p = []"
    with ne have "?p = [hd ?p]" by (cases ?p) simp_all
    then have "last ?p = hd ?p" by (metis last.simps)
    with la that show False by simp
  qed
  then have "filter_dates_contract today dates \<noteq> Inr []"
    using True ne by (auto simp add: filter_dates_contract_def Let_def)
  with eq show ?thesis by simp
qed

theorem filter_dates_meets_contract_witness:
  "filter_dates 100 [150, 100, 110] = Inr [110, 150]
   \<and> filter_dates 100 [100, 110, 144] = Inl (ValueError no_date_msg)"
  using filter_dates_meets_contract [of 100 "[150, 100, 110]"]
        filter_dates_meets_contract [of 100 "[100, 110, 144]"]
  by (simp add: filter_dates_contract_def cutoff_prefix_def)

section \<open>Properties of the term structure\<close>

lemma np_unique_length: "length (np_unique days) = card (set days)"
  by (simp add: np_unique_def length_remdups_card_conv)

text \<open>
  Claim C5. Building the term structure from parallel arrays with fewer than 2 distinct
  days-to-expiry values always fails with the \<^verbatim>\<open>ValueError\<close> "Not enough unique
  expiry dates to build term structure." and returns no curve.
\<close>

theorem build_term_structure_degenerate:
  "card (set days) < 2 \<Longrightarrow> build_term_structure days ivs = Inl (ValueError not_enough_msg)"
  by (simp add: build_term_structure_def np_unique_length)

theorem build_term_structure_degenerate_witness:
  "card (set [30, 30 :: real]) < 2
   \<and> build_term_structure [30, 30] [0.25, 0.35] = Inl (ValueError not_enough_msg)"
proof -
  have h: "card (set [30, 30 :: real]) < 2" by simp
  show ?thesis using h build_term_structure_degenerate [OF h, of "[0.25, 0.35]"] by simp
qed

subsection \<open>What a successful build returns\<close>

lemma build_Inr_D:
  assumes "build_term_structure days ivs = Inr (xs, ys)"
  shows "2 \<le> card (set days)"
    and "length days \<le> length ivs"
    and "xs = map fst (sort_key fst (zip days ivs))"
    and "ys = map snd (sort_key fst (zip days ivs))"
  using assms
  by (auto simp add: build_term_structure_def np_unique_length Let_def split: if_splits)

lemma build_sorted:
  assumes "build_term_structure days ivs = Inr (xs, ys)"
  shows "sorted xs"
  using build_Inr_D(3) [OF assms] by (simp add: sorted_sort_key)

lemma build_zip:
  assumes "build_term_structure days ivs = Inr (xs, ys)"
  shows "zip xs ys = sort_key fst (zip days ivs)"
  using build_Inr_D(3,4) [OF assms] by (simp add: zip_map_fst_snd)

lemma build_mset:
  assumes "build_term_structure days ivs = Inr (xs, ys)"
  shows "mset (zip xs ys) = mset (zip days ivs)"
  using build_zip [OF assms] by simp

lemma build_length:
  assumes "build_term_structure days ivs = Inr (xs, ys)"
  shows "length xs = length days" and "length ys = length days"
  using build_Inr_D(2,3,4) [OF assms] by simp_all

lemma build_mset_days:
  assumes "build_term_structure days ivs = Inr (xs, ys)"
  shows "mset xs = mset days"
proof -
  have "mset xs = image_mset fst (mset (sort_key fst (zip days ivs)))"
    using build_Inr_D(3) [OF assms] by simp
  also have "\<dots> = mset (map fst (zip days ivs))" by simp
  also have "map fst (zip days ivs) = days"
    using build_Inr_D(2) [OF assms] by (simp add: map_fst_zip_take)
  finally show ?thesis .
qed

lemma build_two:
  assumes "build_term_structure days ivs = Inr (xs, ys)"
  shows "2 \<le> length xs"
proof -
  have "2 \<le> card (set days)" using assms by (rule build_Inr_D(1))
  also have "\<dots> \<le> length days" by (rule card_length)
  finally show ?thesis using build_length(1) [OF assms] by simp
qed

subsection \<open>Queries on ascending arrays\<close>

lemma searchsorted_bracket:
  assumes "sorted xs" and "0 < i" and "i < length xs"
    and "xs ! (i - 1) < d" and "d \<le> xs ! i"
  shows "searchsorted xs d = i"
proof -
  have below: "xs ! j < d" if "j < i" for j
  proof -
    have "xs ! j \<le> xs ! (i - 1)"
      using assms(1,3) that by (intro sorted_nth_mono) auto
    with assms(4) show ?thesis by simp
  qed
  have "takeWhile (\<lambda>x. x < d) xs = take i xs"
    using below assms(5) by (intro takeWhile_eq_take_P_nth) auto
  then show ?thesis using assms(3) by (simp add: searchsorted_def)
qed

lemma interp1d_linear_bracket:
  assumes "sorted xs" and "0 < i" and "i < length xs"
    and "xs ! (i - 1) < d" and "d \<le> xs ! i"
  shows "interp1d_linear xs ys d =
           Some ((ys ! i - ys ! (i - 1)) / (xs ! i - xs ! (i - 1)) * (d - xs ! (i - 1)) + ys ! (i - 1))"
proof -
  have s: "searchsorted xs d = i" using assms by (rule searchsorted_bracket)
  have c: "min (max i (Suc 0)) (length xs - Suc 0) = i" using assms(2,3) by simp
  have ne: "xs ! i \<noteq> xs ! (i - Suc 0)" using assms(4,5) by simp
  show ?thesis using ne by (simp add: interp1d_linear_def s c Let_def)
qed

lemma sorted_hd_le_nth:
  assumes "sorted xs" and "i < length xs"
  shows "hd xs \<le> xs ! i"
proof -
  have "xs ! 0 \<le> xs ! i" using assms by (intro sorted_nth_mono) auto
  moreover have "hd xs = xs ! 0" using assms(2) by (cases xs) simp_all
  ultimately show ?thesis by simp
qed

lemma sorted_nth_le_last:
  assumes "sorted xs" and "i < length xs"
  shows "xs ! i \<le> last xs"
proof -
  have "xs ! i \<le> xs ! (length xs - 1)" using assms by (intro sorted_nth_mono) auto
  moreover have "last xs = xs ! (length xs - 1)"
    using assms(2) by (cases "xs = []") (simp_all add: last_conv_nth)
  ultimately show ?thesis by simp
qed

lemma term_spline_bracket:
  assumes "sorted xs" and "0 < i" and "i < length xs"
    and "xs ! (i - 1) < d" and "d \<le> xs ! i"
  shows "term_spline (xs, ys) d =
           Some ((ys ! i - ys ! (i - 1)) / (xs ! i - xs ! (i - 1)) * (d - xs ! (i - 1)) + ys ! (i - 1))"
proof -
  have "hd xs \<le> xs ! (i - 1)" using assms(1,3) by (intro sorted_hd_le_nth) auto
  with assms(4) have lo: "\<not> d < hd xs" by simp
  have "xs ! i \<le> last xs" using assms(1,3) by (rule sorted_nth_le_last)
  with assms(5) have hi: "\<not> d > last xs" by simp
  show ?thesis
    using lo hi interp1d_linear_bracket [OF assms, of ys] by simp
qed

lemma term_spline_at_group_start:
  assumes "sorted xs" and "0 < i" and "i < length xs" and "xs ! (i - 1) < xs ! i"
  shows "term_spline (xs, ys) (xs ! i) = Some (ys ! i)"
proof -
  have "term_spline (xs, ys) (xs ! i) =
          Some ((ys ! i - ys ! (i - 1)) / (xs ! i - xs ! (i - 1)) * (xs ! i - xs ! (i - 1)) + ys ! (i - 1))"
    using assms by (intro term_spline_bracket) auto
  moreover have "xs ! i - xs ! (i - 1) \<noteq> 0" using assms(4) by simp
  ultimately show ?thesis by simp
qed

lemma term_spline_at_first:
  assumes "sorted xs" and "2 \<le> length xs"
  shows "term_spline (xs, ys) (xs ! 0) = (if xs ! 1 = xs ! 0 then None else Some (ys ! 0))"
proof -
  have h: "hd xs = xs ! 0" using assms(2) by (cases xs) simp_all
  have "xs ! 0 \<le> last xs" using assms by (intro sorted_nth_le_last) auto
  then have hi: "\<not> xs ! 0 > last xs" by simp
  have "takeWhile (\<lambda>x. x < xs ! 0) xs = take 0 xs"
    using assms(2) by (intro takeWhile_eq_take_P_nth) auto
  then have s: "searchsorted xs (xs ! 0) = 0" by (simp add: searchsorted_def)
  have c: "min (Suc 0) (length xs - Suc 0) = Suc 0" using assms(2) by simp
  show ?thesis using hi by (simp add: h interp1d_linear_def s c Let_def)
qed

lemma build_zip_nth:
  assumes "build_term_structure days ivs = Inr (xs, ys)" and "i < length xs"
  shows "(xs ! i, ys ! i) \<in> set (zip days ivs)"
proof -
  have "length ys = length xs" using build_length [OF assms(1)] by simp
  with assms(2) have "(xs ! i, ys ! i) \<in> set (zip xs ys)"
    by (auto simp add: set_zip)
  also have "set (zip xs ys) = set (zip days ivs)"
    using build_mset [OF assms(1)] by (rule mset_eq_setD)
  finally show ?thesis .
qed

lemma term_spline_at_sample:
  assumes b: "build_term_structure days ivs = Inr (xs, ys)" and h: "h \<in> set days"
  shows "term_spline (xs, ys) h = None
         \<or> (\<exists>v. (h, v) \<in> set (zip days ivs) \<and> term_spline (xs, ys) h = Some v)"
proof -
  have so: "sorted xs" using b by (rule build_sorted)
  have two: "2 \<le> length xs" using b by (rule build_two)
  have "set xs = set days" using build_mset_days [OF b] by (rule mset_eq_setD)
  with h have "h \<in> set xs" by simp
  then have "\<exists>i. i < length xs \<and> xs ! i = h" by (simp only: in_set_conv_nth)
  then obtain i where i: "i < length xs" "xs ! i = h"
    and least: "\<And>j. j < i \<Longrightarrow> \<not> (j < length xs \<and> xs ! j = h)"
    using exists_least_iff [of "\<lambda>i. i < length xs \<and> xs ! i = h"] by blast
  show ?thesis
  proof (cases "i = 0")
    case True
    then have h0: "h = xs ! 0" using i(2) by simp
    have e: "term_spline (xs, ys) (xs ! 0) = (if xs ! 1 = xs ! 0 then None else Some (ys ! 0))"
      using so two by (rule term_spline_at_first)
    have z: "(xs ! 0, ys ! 0) \<in> set (zip days ivs)"
      using b two by (intro build_zip_nth) auto
    show ?thesis
    proof (cases "xs ! 1 = xs ! 0")
      case True
      with e have "term_spline (xs, ys) (xs ! 0) = None" by (simp only: if_True refl)
      then show ?thesis unfolding h0 by (rule disjI1)
    next
      case False
      with e have "term_spline (xs, ys) (xs ! 0) = Some (ys ! 0)" by (simp only: if_False)
      with z show ?thesis unfolding h0 by blast
    qed
  next
    case False
    then have pos: "0 < i" by simp
    have hi: "h = xs ! i" using i(2) by simp
    have "xs ! (i - 1) \<le> xs ! i" using so i(1) by (intro sorted_nth_mono) auto
    moreover have "xs ! (i - 1) \<noteq> h" using least [of "i - 1"] pos i(1) by simp
    ultimately have lt: "xs ! (i - 1) < xs ! i" using i(2) by simp
    have "term_spline (xs, ys) (xs ! i) = Some (ys ! i)"
      using so pos i(1) lt by (rule term_spline_at_group_start)
    moreover have "(xs ! i, ys ! i) \<in> set (zip days ivs)"
      using b i(1) by (rule build_zip_nth)
    ultimately show ?thesis unfolding hi by blast
  qed
qed

text \<open>
  Claim C6, as the code has it. When the input has duplicate days-to-expiry values (and
  at least 2 distinct values, so that the build succeeds), the build collapses nothing:
  the sorted arrays hold every input sample. A query \<open>d\<close> with \<open>a < d \<le> b\<close> for two
  neighbouring sorted samples at horizons \<open>a < b\<close> is the linear interpolation between
  the last-sorted sample at \<open>a\<close> and the first-sorted sample at \<open>b\<close>; at a duplicated
  horizon above the minimum it is therefore the first-sorted volatility of that horizon;
  above the maximum horizon it is the last-sorted volatility and below the minimum the
  first-sorted one. A query at a sampled horizon returns the volatility of one of the
  samples at that horizon or no number at all, never an average of the duplicates.
\<close>

theorem build_keeps_duplicates:
  assumes "build_term_structure days ivs = Inr (xs, ys)"
  shows "mset (zip xs ys) = mset (zip days ivs) \<and> sorted xs
    \<and> (\<forall>i d. 0 < i \<and> i < length xs \<and> xs ! (i - 1) < d \<and> d \<le> xs ! i \<longrightarrow>
          term_spline (xs, ys) d =
            Some (ys ! (i - 1) + (ys ! i - ys ! (i - 1)) * (d - xs ! (i - 1)) / (xs ! i - xs ! (i - 1))))
    \<and> (\<forall>i. 0 < i \<and> i < length xs \<and> xs ! (i - 1) < xs ! i \<longrightarrow>
          term_spline (xs, ys) (xs ! i) = Some (ys ! i))
    \<and> (\<forall>d. last xs < d \<longrightarrow> term_spline (xs, ys) d = Some (last ys))
    \<and> (\<forall>d. d < hd xs \<longrightarrow> term_spline (xs, ys) d = Some (hd ys))
    \<and> (\<forall>h \<in> set days. term_spline (xs, ys) h = None
          \<or> (\<exists>v. (h, v) \<in> set (zip days ivs) \<and> term_spline (xs, ys) h = Some v))"
proof -
  have so: "sorted xs" using assms by (rule build_sorted)
  have two: "2 \<le> length xs" using assms by (rule build_two)
  have p1: "mset (zip xs ys) = mset (zip days ivs)" using assms by (rule build_mset)
  have p3: "term_spline (xs, ys) d =
      Some (ys ! (i - 1) + (ys ! i - ys ! (i - 1)) * (d - xs ! (i - 1)) / (xs ! i - xs ! (i - 1)))"
    if "0 < i \<and> i < length xs \<and> xs ! (i - 1) < d \<and> d \<le> xs ! i" for i d
    using term_spline_bracket [of xs i d ys] so that by (simp add: add.commute)
  have p4: "term_spline (xs, ys) (xs ! i) = Some (ys ! i)"
    if "0 < i \<and> i < length xs \<and> xs ! (i - 1) < xs ! i" for i
    using term_spline_at_group_start [of xs i ys] so that by simp
  have "hd xs \<le> last xs"
    using so two sorted_nth_le_last [of xs 0] by (cases xs) auto
  then have p5: "term_spline (xs, ys) d = Some (last ys)" if "last xs < d" for d
    using that by simp
  have p6: "term_spline (xs, ys) d = Some (hd ys)" if "d < hd xs" for d
    using that by simp
  have p7: "term_spline (xs, ys) h = None
         \<or> (\<exists>v. (h, v) \<in> set (zip days ivs) \<and> term_spline (xs, ys) h = Some v)"
    if "h \<in> set days" for h
    using assms that by (rule term_spline_at_sample)
  show ?thesis using p1 so p3 p4 p5 p6 p7 by blast
qed

theorem build_keeps_duplicates_witness:
  "build_term_structure [50, 10, 50] [0.3, 0.2, 0.4] = Inr ([10, 50, 50], [0.2, 0.3, 0.4])
   \<and> term_spline ([10, 50, 50], [0.2, 0.3, 0.4]) 30 = Some (0.2 + (0.3 - 0.2) * (30 - 10) / (50 - 10))
   \<and> term_spline ([10, 50, 50], [0.2, 0.3, 0.4]) 50 = Some 0.3
   \<and> term_spline ([10, 50, 50], [0.2, 0.3, 0.4]) 60 = Some 0.4"
proof -
  have b: "build_term_structure [50, 10, 50] [0.3, 0.2, 0.4] = Inr ([10, 50, 50], [0.2, 0.3, 0.4])"
    by (simp add: build_term_structure_def np_unique_def)
  note k = build_keeps_duplicates [OF b]
  have q30: "term_spline ([10, 50, 50], [0.2, 0.3, 0.4]) 30
               = Some (0.2 + (0.3 - 0.2) * (30 - 10) / (50 - 10))"
    using k [THEN conjunct2, THEN conjunct2, THEN conjunct1, rule_format, of 1 30] by simp
  have q50: "term_spline ([10, 50, 50], [0.2, 0.3, 0.4]) 50 = Some 0.3"
    using k [THEN conjunct2, THEN conjunct2, THEN conjunct2, THEN conjunct1, rule_format, of 1]
    by simp
  have q60: "term_spline ([10, 50, 50], [0.2, 0.3, 0.4]) 60 = Some 0.4"
    using k [THEN conjunct2, THEN conjunct2, THEN conjunct2, THEN conjunct2, THEN conjunct1,
             rule_format, of 60]
    by simp
  show ?thesis using b q30 q50 q60 by simp
qed

text \<open>
  The claim as stated fails: with the samples (10, 0.2), (50, 0.3), (50, 0.4) the query at
  the duplicated horizon 50 returns 0.3, the first-sorted value, where the curve through
  the collapsed samples returns the last-sorted 0.4; both values stay observable, as the
  query at 51 returns 0.4. With the two 50-day samples in the other order the query at 50
  again returns the first of them.
\<close>

theorem duplicates_not_collapsed_counterexample:
  "build_term_structure [10, 50, 50] [0.2, 0.3, 0.4] = Inr ([10, 50, 50], [0.2, 0.3, 0.4])
   \<and> term_spline ([10, 50, 50], [0.2, 0.3, 0.4]) 50 = Some 0.3
   \<and> collapsed_spline ([10, 50, 50], [0.2, 0.3, 0.4]) 50 = Some 0.4
   \<and> term_spline ([10, 50, 50], [0.2, 0.3, 0.4]) 51 = Some 0.4
   \<and> term_spline ([10, 50, 50], [0.2, 0.4, 0.3]) 50 = Some 0.4
   \<and> collapsed_spline ([10, 50, 50], [0.2, 0.4, 0.3]) 50 = Some 0.3"
  by (simp add: build_term_structure_def np_unique_def collapsed_spline_def
        interp1d_linear_def searchsorted_def)

subsection \<open>Queries on samples with distinct horizons\<close>

lemma neighbours_adjacent:
  assumes so: "sorted xs" and di: "distinct xs"
    and i: "i < length xs" and j: "j < length xs"
    and lt: "xs ! i < xs ! j"
    and gap: "\<forall>x \<in> set xs. \<not> (xs ! i < x \<and> x < xs ! j)"
  shows "j = Suc i"
proof -
  have ij: "i < j"
  proof (rule ccontr)
    assume "\<not> i < j"
    then have "xs ! j \<le> xs ! i" using so i by (intro sorted_nth_mono) auto
    with lt show False by simp
  qed
  show ?thesis
  proof (rule ccontr)
    assume "j \<noteq> Suc i"
    with ij have s: "Suc i < j" by simp
    have "xs ! i \<le> xs ! Suc i" using so s j by (intro sorted_nth_mono) auto
    moreover have "xs ! i \<noteq> xs ! Suc i"
      using di i s j by (simp add: nth_eq_iff_index_eq)
    moreover have "xs ! Suc i \<le> xs ! j" using so s j by (intro sorted_nth_mono) auto
    moreover have "xs ! Suc i \<noteq> xs ! j"
      using di s j by (simp add: nth_eq_iff_index_eq)
    moreover have "xs ! Suc i \<in> set xs" using s j by simp
    ultimately show False using gap by force
  qed
qed

lemma sample_index:
  assumes b: "build_term_structure days ivs = Inr (xs, ys)"
    and m: "(a, va) \<in> set (zip days ivs)"
  shows "\<exists>i < length xs. xs ! i = a \<and> ys ! i = va"
proof -
  have "set (zip xs ys) = set (zip days ivs)"
    using build_mset [OF b] by (rule mset_eq_setD)
  with m have "(a, va) \<in> set (zip xs ys)" by simp
  then show ?thesis by (auto simp add: set_zip)
qed

lemma term_spline_between:
  assumes b: "build_term_structure days ivs = Inr (xs, ys)" and di: "distinct days"
    and ma: "(a, va) \<in> set (zip days ivs)" and mb: "(b, vb) \<in> set (zip days ivs)"
    and ab: "a < b" and gap: "\<forall>x \<in> set days. \<not> (a < x \<and> x < b)"
    and ad: "a \<le> d" and db: "d \<le> b"
  shows "term_spline (xs, ys) d = Some (va + (vb - va) * (d - a) / (b - a))"
proof -
  have so: "sorted xs" using b by (rule build_sorted)
  have ms: "mset xs = mset days" using b by (rule build_mset_days)
  have dx: "distinct xs" using mset_eq_imp_distinct_iff [OF ms] di by simp
  have sx: "set xs = set days" using ms by (rule mset_eq_setD)
  have two: "2 \<le> length xs" using b by (rule build_two)
  obtain i where i: "i < length xs" "xs ! i = a" "ys ! i = va"
    using sample_index [OF b ma] by blast
  obtain j where j: "j < length xs" "xs ! j = b" "ys ! j = vb"
    using sample_index [OF b mb] by blast
  have "j = Suc i"
  proof (rule neighbours_adjacent [OF so dx i(1) j(1)])
    show "xs ! i < xs ! j" using ab by (simp only: i(2) j(2))
    show "\<forall>x \<in> set xs. \<not> (xs ! i < x \<and> x < xs ! j)" using gap by (simp only: i(2) j(2) sx)
  qed
  with j have si: "Suc i < length xs" "xs ! Suc i = b" "ys ! Suc i = vb" by simp_all
  have ne: "b - a \<noteq> 0" using ab by simp
  show ?thesis
  proof (cases "a < d")
    case True
    have "term_spline (xs, ys) d =
        Some ((ys ! Suc i - ys ! (Suc i - 1)) / (xs ! Suc i - xs ! (Suc i - 1))
                * (d - xs ! (Suc i - 1)) + ys ! (Suc i - 1))"
    proof (rule term_spline_bracket [OF so _ si(1)])
      show "0 < Suc i" by simp
      show "xs ! (Suc i - 1) < d" using True i(2) by simp
      show "d \<le> xs ! Suc i" using db si(2) by simp
    qed
    also have "Suc i - 1 = i" by simp
    finally have "term_spline (xs, ys) d = Some ((vb - va) / (b - a) * (d - a) + va)"
      unfolding i(2) i(3) si(2) si(3) .
    also have "(vb - va) / (b - a) * (d - a) + va = va + (vb - va) * (d - a) / (b - a)"
      by (simp only: times_divide_eq_left add.commute)
    finally show ?thesis .
  next
    case False
    with ad have da: "d = a" by simp
    have v: "va + (vb - va) * (d - a) / (b - a) = va" unfolding da by simp
    have "term_spline (xs, ys) (xs ! i) = Some (ys ! i)"
    proof (cases "i = 0")
      case True
      have "term_spline (xs, ys) (xs ! 0) = (if xs ! 1 = xs ! 0 then None else Some (ys ! 0))"
        using so two by (rule term_spline_at_first)
      moreover have "xs ! 1 \<noteq> xs ! 0" using True i(2) si(2) ab by simp
      ultimately have "term_spline (xs, ys) (xs ! 0) = Some (ys ! 0)" by (simp only: if_False)
      then show ?thesis unfolding True .
    next
      case False
      then have pos: "0 < i" by simp
      have "xs ! (i - 1) \<le> xs ! i" using so i(1) by (intro sorted_nth_mono) auto
      moreover have "xs ! (i - 1) \<noteq> xs ! i"
        using dx pos i(1) by (simp add: nth_eq_iff_index_eq)
      ultimately have "xs ! (i - 1) < xs ! i" by simp
      with so pos i(1) show ?thesis by (rule term_spline_at_group_start)
    qed
    then have "term_spline (xs, ys) a = Some va" unfolding i(2) i(3) .
    then show ?thesis unfolding da by simp
  qed
qed

lemma sorted_hd_Min:
  assumes "sorted xs" and "xs \<noteq> []"
  shows "hd xs = Min (set xs)"
proof -
  have "hd xs \<le> y" if "y \<in> set xs" for y
    using that assms(1) sorted_hd_le_nth [of xs] by (auto simp add: in_set_conv_nth)
  then show ?thesis using assms(2) by (intro Min_eqI [symmetric]) simp_all
qed

lemma sorted_last_Max:
  assumes "sorted xs" and "xs \<noteq> []"
  shows "last xs = Max (set xs)"
proof -
  have "y \<le> last xs" if "y \<in> set xs" for y
    using that assms(1) sorted_nth_le_last [of xs] by (auto simp add: in_set_conv_nth)
  then show ?thesis using assms(2) by (intro Max_eqI [symmetric]) simp_all
qed

lemma build_value_unique:
  assumes b: "build_term_structure days ivs = Inr (xs, ys)" and di: "distinct days"
    and m: "(a, v) \<in> set (zip days ivs)" and i: "i < length xs" and a: "xs ! i = a"
  shows "ys ! i = v"
proof -
  have "map fst (zip days ivs) = days"
    using build_Inr_D(2) [OF b] by (simp add: map_fst_zip_take)
  with di have "distinct (map fst (zip days ivs))" by simp
  moreover have "(a, ys ! i) \<in> set (zip days ivs)"
    using build_zip_nth [OF b i] a by simp
  ultimately show ?thesis using m by (rule eq_key_imp_eq_value)
qed

text \<open>
  Claim C2. For a term structure built from samples with pairwise distinct days-to-expiry
  (at least 2 of them, or the build fails), a query below the minimum sampled horizon
  returns the volatility sampled at the minimum, a query above the maximum returns the
  volatility sampled at the maximum, and a query between two bracketing samples
  \<open>(a, va)\<close>, \<open>(b, vb)\<close> (no sample strictly between them) returns the linear
  interpolation \<open>va + (vb - va) * (d - a) / (b - a)\<close>; with exactly two samples
  \<open>(d1, v1)\<close>, \<open>(d2, v2)\<close> and \<open>d1 \<le> d \<le> d2\<close> that is
  \<open>v1 + (v2 - v1) * (d - d1) / (d2 - d1)\<close>.
\<close>

theorem term_spline_query_contract:
  assumes b: "build_term_structure days ivs = Inr ts" and di: "distinct days"
  shows "(\<forall>v. (Min (set days), v) \<in> set (zip days ivs) \<and> d < Min (set days)
            \<longrightarrow> term_spline ts d = Some v)
    \<and> (\<forall>v. (Max (set days), v) \<in> set (zip days ivs) \<and> Max (set days) < d
            \<longrightarrow> term_spline ts d = Some v)
    \<and> (\<forall>a va b vb. (a, va) \<in> set (zip days ivs) \<and> (b, vb) \<in> set (zip days ivs)
            \<and> a < b \<and> (\<forall>x \<in> set days. \<not> (a < x \<and> x < b)) \<and> a \<le> d \<and> d \<le> b
            \<longrightarrow> term_spline ts d = Some (va + (vb - va) * (d - a) / (b - a)))
    \<and> (\<forall>d1 v1 d2 v2. days = [d1, d2] \<and> ivs = [v1, v2] \<and> d1 \<le> d \<and> d \<le> d2
            \<longrightarrow> term_spline ts d = Some (v1 + (v2 - v1) * (d - d1) / (d2 - d1)))"
proof -
  obtain xs ys where ts: "ts = (xs, ys)" by (cases ts)
  note b' = b [unfolded ts]
  have so: "sorted xs" using b' by (rule build_sorted)
  have two: "2 \<le> length xs" using b' by (rule build_two)
  then have ne: "xs \<noteq> []" by (cases xs) simp_all
  have ly: "length ys = length xs" using build_length [OF b'] by simp
  have sx: "set xs = set days" using build_mset_days [OF b'] by (rule mset_eq_setD)
  have hmin: "hd xs = Min (set days)" using sorted_hd_Min [OF so ne] sx by simp
  have lmax: "last xs = Max (set days)" using sorted_last_Max [OF so ne] sx by simp
  have hl: "hd xs \<le> last xs"
    using so two sorted_nth_le_last [of xs 0] by (cases xs) auto
  have ney: "ys \<noteq> []" using two ly by (cases ys) simp_all
  have pos: "0 < length xs" using ne by simp
  have x0: "xs ! 0 = Min (set days)" using hmin hd_conv_nth [OF ne] by simp
  have y0: "hd ys = ys ! 0" using ney by (rule hd_conv_nth)
  have li: "length xs - 1 < length xs" using two by simp
  have xl: "xs ! (length xs - 1) = Max (set days)" using lmax last_conv_nth [OF ne] by simp
  have yl: "last ys = ys ! (length xs - 1)" using last_conv_nth [OF ney] ly by simp
  have p1: "term_spline ts d = Some v"
    if h: "(Min (set days), v) \<in> set (zip days ivs) \<and> d < Min (set days)" for v
  proof -
    from h have m: "(Min (set days), v) \<in> set (zip days ivs)" and dl: "d < hd xs"
      by (simp_all add: hmin)
    have "ys ! 0 = v" using b' di m pos x0 by (rule build_value_unique)
    with y0 have "hd ys = v" by simp
    moreover have "term_spline (xs, ys) d = Some (hd ys)" using dl by simp
    ultimately show ?thesis unfolding ts by simp
  qed
  have p2: "term_spline ts d = Some v"
    if h: "(Max (set days), v) \<in> set (zip days ivs) \<and> Max (set days) < d" for v
  proof -
    from h have m: "(Max (set days), v) \<in> set (zip days ivs)" and dl: "last xs < d"
      by (simp_all add: lmax)
    have "ys ! (length xs - 1) = v" using b' di m li xl by (rule build_value_unique)
    with yl have "last ys = v" by simp
    moreover have "\<not> d < hd xs" using dl hl by simp
    then have "term_spline (xs, ys) d = Some (last ys)" using dl by simp
    ultimately show ?thesis unfolding ts by simp
  qed
  have p3: "term_spline ts d = Some (va + (vb - va) * (d - a) / (b - a))"
    if h: "(a, va) \<in> set (zip days ivs) \<and> (b, vb) \<in> set (zip days ivs)
            \<and> a < b \<and> (\<forall>x \<in> set days. \<not> (a < x \<and> x < b)) \<and> a \<le> d \<and> d \<le> b" for a va b vb
  proof -
    from h have ma: "(a, va) \<in> set (zip days ivs)" and mb: "(b, vb) \<in> set (zip days ivs)"
      and ab: "a < b" and gap: "\<forall>x \<in> set days. \<not> (a < x \<and> x < b)"
      and ad: "a \<le> d" and db: "d \<le> b" by blast+
    show ?thesis unfolding ts using b' di ma mb ab gap ad db by (rule term_spline_between)
  qed
  have p4: "term_spline ts d = Some (v1 + (v2 - v1) * (d - d1) / (d2 - d1))"
    if h: "days = [d1, d2] \<and> ivs = [v1, v2] \<and> d1 \<le> d \<and> d \<le> d2" for d1 v1 d2 v2
  proof -
    from h have dy: "days = [d1, d2]" and iv: "ivs = [v1, v2]"
      and a: "d1 \<le> d" and c: "d \<le> d2" by blast+
    have "d1 \<noteq> d2" using di dy by simp
    with a c have lt: "d1 < d2" by simp
    have m1: "(d1, v1) \<in> set (zip days ivs)" and m2: "(d2, v2) \<in> set (zip days ivs)"
      by (simp_all add: dy iv)
    have gap: "\<forall>x \<in> set days. \<not> (d1 < x \<and> x < d2)" by (simp add: dy)
    show ?thesis using p3 [of d1 v1 d2 v2] m1 m2 lt gap a c by blast
  qed
  show ?thesis using p1 p2 p3 p4 by blast
qed

theorem term_spline_query_contract_witness:
  "build_term_structure [50, 10] [0.5, 0.3] = Inr ([10, 50], [0.3, 0.5])
   \<and> term_spline ([10, 50], [0.3, 0.5]) 5 = Some 0.3
   \<and> term_spline ([10, 50], [0.3, 0.5]) 60 = Some 0.5
   \<and> term_spline ([10, 50], [0.3, 0.5]) 45 = Some (0.3 + (0.5 - 0.3) * (45 - 10) / (50 - 10))"
proof -
  have b: "build_term_structure [50, 10] [0.5, 0.3] = Inr ([10, 50], [0.3, 0.5])"
    by (simp add: build_term_structure_def np_unique_def)
  have di: "distinct [50, 10 :: real]" by simp
  have q5: "term_spline ([10, 50], [0.3, 0.5]) 5 = Some 0.3"
    using term_spline_query_contract [OF b di, of 5, THEN conjunct1, rule_format, of "0.3"]
    by simp
  have q60: "term_spline ([10, 50], [0.3, 0.5]) 60 = Some 0.5"
    using term_spline_query_contract [OF b di, of 60, THEN conjunct2, THEN conjunct1,
            rule_format, of "0.5"]
    by simp
  have q45: "term_spline ([10, 50], [0.3, 0.5]) 45 = Some (0.3 + (0.5 - 0.3) * (45 - 10) / (50 - 10))"
    using term_spline_query_contract [OF b di, of 45, THEN conjunct2, THEN conjunct2,
            THEN conjunct1, rule_format, of 10 "0.3" 50 "0.5"]
    by simp
  show ?thesis using b q5 q60 q45 by simp
qed

section \<open>Properties of the realized-volatility estimator\<close>

lemma length_series [simp]:
  "length (col f pd) = length pd"
  "length (s_log_ratio xs ys) = min (length xs) (length ys)"
  "length (s_add xs ys) = min (length xs) (length ys)"
  "length (s_sub xs ys) = min (length xs) (length ys)"
  "length (s_mul xs ys) = min (length xs) (length ys)"
  "length (s_sq xs) = length xs"
  "length (s_scale c xs) = length xs"
  "length (shift1 xs) = length xs"
  "length (rolling_sum w xs) = length xs"
  by (simp_all add: col_def s_log_ratio_def s_add_def s_sub_def s_mul_def s_sq_def
        s_scale_def shift1_def rolling_sum_def)

lemma length_logs [simp]:
  "length (log_ho pd) = length pd"
  "length (log_lo pd) = length pd"
  "length (log_co pd) = length pd"
  "length (log_oc pd) = length pd"
  "length (log_cc pd) = length pd"
  "length (rs pd) = length pd"
  by (simp_all add: log_ho_def log_lo_def log_co_def log_oc_def log_cc_def rs_def)

lemma length_vols [simp]:
  "length (close_vol w pd) = length pd"
  "length (open_vol w pd) = length pd"
  "length (window_rs w pd) = length pd"
  "length (yz_result w tp pd) = length pd"
  by (simp_all add: close_vol_def open_vol_def window_rs_def yz_result_def)

lemma fl2_simps [simp]:
  "fl2 f None b = None"
  "fl2 f a None = None"
  "fl2 f (Some x) (Some y) = Some (f x y)"
  by (simp_all add: fl2_def split: option.splits)

lemma nth_series:
  "i < length pd \<Longrightarrow> col f pd ! i = Some (f (pd ! i))"
  "i < length xs \<Longrightarrow> i < length ys \<Longrightarrow> s_add xs ys ! i = fl2 (+) (xs ! i) (ys ! i)"
  "i < length xs \<Longrightarrow> i < length ys \<Longrightarrow> s_sub xs ys ! i = fl2 (-) (xs ! i) (ys ! i)"
  "i < length xs \<Longrightarrow> i < length ys \<Longrightarrow> s_mul xs ys ! i = fl2 (*) (xs ! i) (ys ! i)"
  "i < length xs \<Longrightarrow> s_sq xs ! i = map_option (\<lambda>x. x\<^sup>2) (xs ! i)"
  "i < length xs \<Longrightarrow> s_scale c xs ! i = map_option (\<lambda>x. c * x) (xs ! i)"
  by (simp_all add: col_def s_add_def s_sub_def s_mul_def s_sq_def s_scale_def)

lemma nth_shift1:
  "i < length xs \<Longrightarrow> shift1 xs ! i = (if i = 0 then None else xs ! (i - 1))"
  by (cases i) (auto simp add: shift1_def nth_butlast)

lemma nth_s_log_ratio:
  "i < length xs \<Longrightarrow> i < length ys \<Longrightarrow>
   s_log_ratio xs ys ! i =
     (case xs ! i of None \<Rightarrow> None
      | Some a \<Rightarrow> (case ys ! i of None \<Rightarrow> None | Some b \<Rightarrow> np_log_ratio a b))"
  by (simp add: s_log_ratio_def)

lemma nth_rolling_sum:
  "i < length xs \<Longrightarrow>
   rolling_sum w xs ! i =
     (if Suc i < w then None else window_sum (take w (drop (Suc i - w) xs)))"
  by (simp add: rolling_sum_def)

lemma np_log_ratio_pos: "0 < a \<Longrightarrow> 0 < b \<Longrightarrow> np_log_ratio a b = Some (ln (a / b))"
  by (simp add: np_log_ratio_def)

lemma window_sum_Some: "window_sum (map (\<lambda>i. Some (g i)) is) = Some (\<Sum>i \<leftarrow> is. g i)"
  by (induction "is") simp_all

lemma window_sum_None: "None \<in> set xs \<Longrightarrow> window_sum xs = None"
  by (induction xs) auto

lemma window_slice:
  assumes "w \<le> n" and "n \<le> length xs"
  shows "take w (drop (n - w) xs) = map (\<lambda>i. xs ! i) [n - w ..< n]"
proof (rule nth_equalityI)
  show "length (take w (drop (n - w) xs)) = length (map (\<lambda>i. xs ! i) [n - w ..< n])"
    using assms by simp
next
  fix i assume "i < length (take w (drop (n - w) xs))"
  then have "i < w" by simp
  then show "take w (drop (n - w) xs) ! i = map (\<lambda>i. xs ! i) [n - w ..< n] ! i"
    using assms by (simp add: add.commute)
qed

text \<open>The rolling sum at the last row, when every entry from row 1 on is defined.\<close>

lemma rolling_sum_last:
  assumes w: "w < length xs" and w0: "0 < w"
    and g: "\<And>i. 0 < i \<Longrightarrow> i < length xs \<Longrightarrow> xs ! i = Some (g i)"
  shows "rolling_sum w xs ! (length xs - 1) = Some (\<Sum>i \<leftarrow> [length xs - w ..< length xs]. g i)"
proof -
  let ?n = "length xs"
  have "take w (drop (?n - w) xs) = map (\<lambda>i. xs ! i) [?n - w ..< ?n]"
    using w by (intro window_slice) simp_all
  also have "\<dots> = map (\<lambda>i. Some (g i)) [?n - w ..< ?n]"
    using w g by (intro map_cong) auto
  finally have "window_sum (take w (drop (?n - w) xs)) = Some (\<Sum>i \<leftarrow> [?n - w ..< ?n]. g i)"
    by (simp only: window_sum_Some)
  moreover have "Suc (?n - 1) = ?n" using w by simp
  moreover have "\<not> ?n < w" using w by simp
  ultimately show ?thesis using w by (simp add: nth_rolling_sum)
qed

lemma rolling_sum_last_short:
  assumes "xs \<noteq> []" and "length xs \<le> w" and "xs ! 0 = None"
  shows "rolling_sum w xs ! (length xs - 1) = None"
proof -
  have i: "length xs - 1 < length xs" using assms(1) by simp
  have s: "Suc (length xs - 1) = length xs" using assms(1) by simp
  have r: "rolling_sum w xs ! (length xs - 1) =
             (if length xs < w then None else window_sum (take w (drop (length xs - w) xs)))"
    using nth_rolling_sum [OF i, of w] s by simp
  show ?thesis
  proof (cases "length xs < w")
    case True
    then show ?thesis unfolding r by simp
  next
    case False
    with assms(2) have e: "w = length xs" by simp
    have "None \<in> set xs" using assms(1,3) by (metis length_greater_0_conv nth_mem)
    then have "window_sum xs = None" by (rule window_sum_None)
    then show ?thesis using r unfolding e by simp
  qed
qed

subsection \<open>The Series of the estimator on positive prices\<close>

lemma nth_log_oc_0: "pd \<noteq> [] \<Longrightarrow> log_oc pd ! 0 = None"
  by (simp add: log_oc_def nth_s_log_ratio nth_series nth_shift1)

lemma nth_log_oc:
  assumes "\<forall>b \<in> set pd. positive_bar b" and "0 < i" and "i < length pd"
  shows "s_sq (log_oc pd) ! i = Some ((ln (Open (pd ! i) / Close (pd ! (i - 1))))\<^sup>2)"
proof -
  have "positive_bar (pd ! i)" "positive_bar (pd ! (i - 1))" using assms by simp_all
  then show ?thesis
    using assms(2,3)
    by (simp add: log_oc_def nth_s_log_ratio nth_series nth_shift1 positive_bar_def
          np_log_ratio_pos)
qed

lemma nth_log_cc:
  assumes "\<forall>b \<in> set pd. positive_bar b" and "0 < i" and "i < length pd"
  shows "s_sq (log_cc pd) ! i = Some ((ln (Close (pd ! i) / Close (pd ! (i - 1))))\<^sup>2)"
proof -
  have "positive_bar (pd ! i)" "positive_bar (pd ! (i - 1))" using assms by simp_all
  then show ?thesis
    using assms(2,3)
    by (simp add: log_cc_def nth_s_log_ratio nth_series nth_shift1 positive_bar_def
          np_log_ratio_pos)
qed

lemma nth_rs:
  assumes "\<forall>b \<in> set pd. positive_bar b" and "i < length pd"
  shows "rs pd ! i = Some (spec_rs_term (pd ! i))"
proof -
  have "positive_bar (pd ! i)" using assms by simp
  then show ?thesis
    using assms(2)
    by (simp add: rs_def log_ho_def log_lo_def log_co_def nth_s_log_ratio nth_series
          positive_bar_def np_log_ratio_pos spec_rs_term_def)
qed

subsection \<open>The value at the latest bar\<close>

lemma open_vol_last:
  assumes "\<forall>b \<in> set pd. positive_bar b" and "0 < w" and "w < length pd"
  shows "open_vol w pd ! (length pd - 1) = Some (spec_overnight w pd)"
proof -
  have "rolling_sum w (s_sq (log_oc pd)) ! (length (s_sq (log_oc pd)) - 1) =
          Some (\<Sum>i \<leftarrow> [length (s_sq (log_oc pd)) - w ..< length (s_sq (log_oc pd))].
                  (ln (Open (pd ! i) / Close (pd ! (i - 1))))\<^sup>2)"
    using assms by (intro rolling_sum_last) (simp_all add: nth_log_oc)
  then show ?thesis using assms(3) by (simp add: open_vol_def nth_series spec_overnight_def)
qed

lemma close_vol_last:
  assumes "\<forall>b \<in> set pd. positive_bar b" and "0 < w" and "w < length pd"
  shows "close_vol w pd ! (length pd - 1) = Some (spec_close w pd)"
proof -
  have "rolling_sum w (s_sq (log_cc pd)) ! (length (s_sq (log_cc pd)) - 1) =
          Some (\<Sum>i \<leftarrow> [length (s_sq (log_cc pd)) - w ..< length (s_sq (log_cc pd))].
                  (ln (Close (pd ! i) / Close (pd ! (i - 1))))\<^sup>2)"
    using assms by (intro rolling_sum_last) (simp_all add: nth_log_cc)
  then show ?thesis using assms(3) by (simp add: close_vol_def nth_series spec_close_def)
qed

lemma window_rs_last:
  assumes "\<forall>b \<in> set pd. positive_bar b" and "0 < w" and "w < length pd"
  shows "window_rs w pd ! (length pd - 1) = Some (spec_intraday w pd)"
proof -
  have "rolling_sum w (rs pd) ! (length (rs pd) - 1) =
          Some (\<Sum>i \<leftarrow> [length (rs pd) - w ..< length (rs pd)]. spec_rs_term (pd ! i))"
    using assms by (intro rolling_sum_last) (simp_all add: nth_rs)
  then show ?thesis using assms(3) by (simp add: window_rs_def nth_series spec_intraday_def)
qed

lemma yz_result_last:
  assumes "\<forall>b \<in> set pd. positive_bar b" and "0 < w" and "w < length pd" and "0 \<le> tp"
  shows "yz_result w tp pd ! (length pd - 1) =
           (if 0 \<le> spec_variance w pd then Some (sqrt (spec_variance w pd * tp)) else None)"
proof -
  have i: "length pd - 1 < length pd" using assms(3) by simp
  have ov: "open_vol w pd ! (length pd - Suc 0) = Some (spec_overnight w pd)"
    using open_vol_last [OF assms(1,2,3)] by simp
  have cv: "close_vol w pd ! (length pd - Suc 0) = Some (spec_close w pd)"
    using close_vol_last [OF assms(1,2,3)] by simp
  have rv: "window_rs w pd ! (length pd - Suc 0) = Some (spec_intraday w pd)"
    using window_rs_last [OF assms(1,2,3)] by simp
  show ?thesis
    using i assms(4)
    by (simp add: yz_result_def nth_series ov cv rv spec_variance_def np_sqrt_def
          real_sqrt_mult)
qed

lemma yang_zhang_last:
  assumes "pd \<noteq> []" and "w \<noteq> 1"
  shows "yang_zhang w tp pd = Inr (yz_result w tp pd ! (length pd - 1))"
proof -
  have "0 < length (yz_result w tp pd)" using assms(1) by simp
  then have "yz_result w tp pd \<noteq> []" by (rule length_greater_0_conv [THEN iffD1])
  then show ?thesis
    using assms(2) by (simp add: yang_zhang_def Let_def last_conv_nth)
qed

text \<open>
  With no more bars than the window the latest value is undefined: the first bar has no
  previous close, so the rolling windows over the overnight and close-to-close terms never
  fill.
\<close>

lemma yang_zhang_short:
  assumes "pd \<noteq> []" and "length pd \<le> w" and "w \<noteq> 1"
  shows "yang_zhang w tp pd = Inr None"
proof -
  let ?s = "s_sq (log_oc pd)"
  have i: "length pd - 1 < length pd" using assms(1) by simp
  have l: "length ?s = length pd" by simp
  have "0 < length ?s" using assms(1) by simp
  then have ne: "?s \<noteq> []" by (rule length_greater_0_conv [THEN iffD1])
  have le: "length ?s \<le> w" using assms(2) by simp
  have z: "?s ! 0 = None"
    using assms(1) by (simp add: nth_series nth_log_oc_0)
  have "rolling_sum w ?s ! (length ?s - 1) = None"
    using ne le z by (rule rolling_sum_last_short)
  then have r: "rolling_sum w ?s ! (length pd - Suc 0) = None" by simp
  have "open_vol w pd ! (length pd - 1) = None"
    using i by (simp add: open_vol_def nth_series r)
  then have o: "open_vol w pd ! (length pd - Suc 0) = None" by simp
  have "yz_result w tp pd ! (length pd - 1) = None"
    using i by (simp add: yz_result_def nth_series o)
  then show ?thesis using yang_zhang_last [OF assms(1,3)] by simp
qed

lemma yang_zhang_empty: "w \<noteq> 1 \<Longrightarrow> yang_zhang w tp [] = Inl IndexError"
proof -
  have "length (yz_result w tp []) = 0" by simp
  then have "yz_result w tp [] = []" by (rule length_0_conv [THEN iffD1])
  then show "w \<noteq> 1 \<Longrightarrow> yang_zhang w tp [] = Inl IndexError"
    by (simp add: yang_zhang_def)
qed

lemma constant_variance:
  assumes c: "\<forall>b \<in> set pd. constant_bar c b" and w: "w < length pd" and c0: "c \<noteq> 0"
  shows "spec_variance w pd = 0"
proof -
  have b: "constant_bar c (pd ! i)" if "i < length pd" for i using c that by simp
  have o: "(ln (Open (pd ! i) / Close (pd ! (i - 1))))\<^sup>2 = 0"
    and cl: "(ln (Close (pd ! i) / Close (pd ! (i - 1))))\<^sup>2 = 0"
    and r: "spec_rs_term (pd ! i) = 0"
    if "i \<in> set [length pd - w ..< length pd]" for i
  proof -
    have "i < length pd" "i - 1 < length pd" using that by auto
    then have "constant_bar c (pd ! i)" "constant_bar c (pd ! (i - 1))" using b by blast+
    then show "(ln (Open (pd ! i) / Close (pd ! (i - 1))))\<^sup>2 = 0"
      and "(ln (Close (pd ! i) / Close (pd ! (i - 1))))\<^sup>2 = 0"
      and "spec_rs_term (pd ! i) = 0"
      using c0 by (simp_all add: constant_bar_def spec_rs_term_def)
  qed
  have zero: "(\<Sum>i \<leftarrow> is. g i) = (0::real)" if "\<And>i. i \<in> set is \<Longrightarrow> g i = 0"
    for g and "is" :: "nat list"
    using that by (induction "is") simp_all
  have "(\<Sum>i \<leftarrow> [length pd - w ..< length pd].
           (ln (Open (pd ! i) / Close (pd ! (i - 1))))\<^sup>2) = 0"
    by (rule zero) (rule o, assumption)
  then have "spec_overnight w pd = 0" by (simp only: spec_overnight_def div_0)
  moreover have "(\<Sum>i \<leftarrow> [length pd - w ..< length pd].
           (ln (Close (pd ! i) / Close (pd ! (i - 1))))\<^sup>2) = 0"
    by (rule zero) (rule cl, assumption)
  then have "spec_close w pd = 0" by (simp only: spec_close_def div_0)
  moreover have "(\<Sum>i \<leftarrow> [length pd - w ..< length pd]. spec_rs_term (pd ! i)) = 0"
    by (rule zero) (rule r, assumption)
  then have "spec_intraday w pd = 0" by (simp only: spec_intraday_def div_0)
  ultimately show ?thesis by (simp add: spec_variance_def)
qed

text \<open>
  The estimator on more than \<open>window\<close> bars. For every sequence of OHLC bars with positive
  prices and at least \<open>window + 1\<close> bars (each of the last \<open>window\<close> bars has the close of
  the bar before it) and \<open>window \<ge> 2\<close>, the value returned for the latest date is
  \<open>sqrt ((O + k * C + (1 - k) * R) * trading_periods)\<close>, with \<open>O\<close>, \<open>C\<close> and \<open>R\<close> the sums
  over the last \<open>window\<close> bars of \<open>ln(Open/prevClose)\<^sup>2\<close>, \<open>ln(Close/prevClose)\<^sup>2\<close> and
  \<open>rs\<close>, each scaled by \<open>1 / (window - 1)\<close>, and \<open>k = 0.34 / (1.34 + (window + 1) /
  (window - 1))\<close>; it is no number when that variance is negative. Constant bars yield 0.
\<close>

lemma yang_zhang_formula:
  assumes "2 \<le> window" and "window < length bars"
    and "\<forall>b \<in> set bars. positive_bar b" and "0 \<le> trading_periods"
  shows "yang_zhang window trading_periods bars =
           Inr (if 0 \<le> spec_variance window bars
                then Some (sqrt (spec_variance window bars * trading_periods)) else None)
    \<and> ((\<forall>b \<in> set bars. constant_bar c b)
          \<longrightarrow> yang_zhang window trading_periods bars = Inr (Some 0))"
proof -
  have ne: "bars \<noteq> []" and w1: "window \<noteq> 1" and w0: "0 < window" using assms(1,2) by auto
  have f: "yang_zhang window trading_periods bars =
           Inr (if 0 \<le> spec_variance window bars
                then Some (sqrt (spec_variance window bars * trading_periods)) else None)"
    using yang_zhang_last [OF ne w1, of trading_periods]
      yz_result_last [OF assms(3) w0 assms(2,4)] by simp
  have "yang_zhang window trading_periods bars = Inr (Some 0)"
    if k: "\<forall>b \<in> set bars. constant_bar c b"
  proof -
    have "hd bars \<in> set bars" using ne by simp
    then have "constant_bar c (hd bars)" "positive_bar (hd bars)" using k assms(3) by blast+
    then have "c \<noteq> 0" by (auto simp add: constant_bar_def positive_bar_def)
    with k assms(2) have "spec_variance window bars = 0" by (intro constant_variance)
    then show ?thesis using f by simp
  qed
  with f show ?thesis by blast
qed

subsection \<open>The 30-day average volume and the estimator on equal bars\<close>

lemma map_filter_all_None:
  "(\<And>x. x \<in> set xs \<Longrightarrow> f x = None) \<Longrightarrow> List.map_filter f xs = []"
  by (induction xs) (simp_all add: List.map_filter_simps)

lemma map_filter_last:
  assumes "xs \<noteq> []" and "f (last xs) = Some v"
  shows "List.map_filter f xs \<noteq> [] \<and> last (List.map_filter f xs) = v"
proof -
  have "List.map_filter f (butlast xs @ [last xs]) = List.map_filter f (butlast xs) @ [v]"
    using assms(2) by (simp add: List.map_filter_def)
  then have "List.map_filter f xs = List.map_filter f (butlast xs) @ [v]"
    using assms(1) by simp
  then show ?thesis by simp
qed

lemma latest_avg_volume_short:
  assumes "length history < 30"
  shows "latest_avg_volume history = Inl IndexError"
proof -
  have "rolling_sum 30 (col Volume history) = map (\<lambda>i. None) [0..<length history]"
    unfolding rolling_sum_def using assms by simp
  then have "List.map_filter (\<lambda>x. x)
               (map (map_option (\<lambda>s. s / 30)) (rolling_sum 30 (col Volume history))) = []"
    by (intro map_filter_all_None) auto
  then show ?thesis by (simp add: latest_avg_volume_def)
qed

lemma latest_avg_volume_last:
  assumes "30 \<le> length history"
  shows "latest_avg_volume history =
           Inr ((\<Sum>i \<leftarrow> [length history - 30 ..< length history]. Volume (history ! i)) / 30)"
proof -
  let ?n = "length history"
  let ?xs = "col Volume history"
  let ?means = "map (map_option (\<lambda>s. s / 30)) (rolling_sum 30 ?xs)"
  have n: "0 < ?n" using assms by linarith
  have l: "length (rolling_sum 30 ?xs) = ?n" by (simp add: rolling_sum_def)
  have s: "Suc (?n - Suc 0) = ?n" using n by simp
  have "take 30 (drop (?n - 30) ?xs) = map (\<lambda>i. ?xs ! i) [?n - 30 ..< ?n]"
    using assms by (intro window_slice) simp_all
  also have "\<dots> = map (\<lambda>i. Some (Volume (history ! i))) [?n - 30 ..< ?n]"
    by (simp add: nth_series)
  finally have t: "window_sum (take 30 (drop (?n - 30) ?xs)) =
      Some (\<Sum>i \<leftarrow> [?n - 30 ..< ?n]. Volume (history ! i))"
    by (simp only: window_sum_Some)
  have r: "rolling_sum 30 ?xs ! (?n - Suc 0) =
      Some (\<Sum>i \<leftarrow> [?n - 30 ..< ?n]. Volume (history ! i))"
    using n assms t by (simp add: nth_rolling_sum s)
  have ne: "?means \<noteq> []" using n l by (metis length_0_conv length_map less_numeral_extra(3))
  have "last ?means = ?means ! (?n - Suc 0)"
    using ne l by (simp add: last_conv_nth)
  also have "\<dots> = Some ((\<Sum>i \<leftarrow> [?n - 30 ..< ?n]. Volume (history ! i)) / 30)"
    using n l r by simp
  finally have la: "last ?means =
      Some ((\<Sum>i \<leftarrow> [?n - 30 ..< ?n]. Volume (history ! i)) / 30)" .
  have "List.map_filter (\<lambda>x. x) ?means \<noteq> []
      \<and> last (List.map_filter (\<lambda>x. x) ?means) =
          (\<Sum>i \<leftarrow> [?n - 30 ..< ?n]. Volume (history ! i)) / 30"
    using ne la by (intro map_filter_last)
  then show ?thesis
    by (simp add: latest_avg_volume_def)
qed

lemma sum_list_constant:
  "(\<And>i. i \<in> set is \<Longrightarrow> g i = (v::real)) \<Longrightarrow> (\<Sum>i \<leftarrow> is. g i) = real (length is) * v"
  by (induction "is") (simp_all add: algebra_simps)

lemma latest_avg_volume_constant:
  assumes "30 \<le> length history" and "\<forall>b \<in> set history. Volume b = v"
  shows "latest_avg_volume history = Inr v"
proof -
  have "(\<Sum>i \<leftarrow> [length history - 30 ..< length history]. Volume (history ! i)) =
          real (length [length history - 30 ..< length history]) * v"
    using assms(2) by (intro sum_list_constant) simp
  also have "\<dots> = 30 * v" using assms(1) by simp
  finally show ?thesis using latest_avg_volume_last [OF assms(1)] by simp
qed

lemma yang_zhang_constant:
  assumes "30 < length pd" and "\<forall>b \<in> set pd. constant_bar c b" and "0 < c"
  shows "yang_zhang 30 252 pd = Inr (Some 0)"
proof -
  have p: "\<forall>b \<in> set pd. positive_bar b"
    using assms(2,3) by (simp add: constant_bar_def positive_bar_def)
  have ne: "pd \<noteq> []" using assms(1) by auto
  have v: "spec_variance 30 pd = 0"
    using assms(2) assms(1) by (rule constant_variance) (use assms(3) in simp)
  have "yz_result 30 252 pd ! (length pd - 1) = Some 0"
    using yz_result_last [OF p _ assms(1), of 252] v by simp
  then show ?thesis using yang_zhang_last [OF ne, of 30 252] by simp
qed

lemma liquid_history:
  "yang_zhang 30 252 (replicate 31 liquid_bar) = Inr (Some 0)"
  "latest_avg_volume (replicate 31 liquid_bar) = Inr 2000000"
proof -
  have c: "\<forall>b \<in> set (replicate 31 liquid_bar). constant_bar 100 b"
    by (simp add: constant_bar_def liquid_bar_def)
  show "yang_zhang 30 252 (replicate 31 liquid_bar) = Inr (Some 0)"
    by (rule yang_zhang_constant [OF _ c]) simp_all
  have v: "\<forall>b \<in> set (replicate 31 liquid_bar). Volume b = 2000000"
    by (simp add: liquid_bar_def)
  show "latest_avg_volume (replicate 31 liquid_bar) = Inr 2000000"
    by (rule latest_avg_volume_constant [OF _ v]) simp
qed

subsection \<open>The example markets, evaluated\<close>

lemma filter_dates_example: "filter_dates 100 [110, 150] = Inr [110, 150]"
  by (simp add: filter_dates_def Let_def)

lemma filter_dates_near_term: "filter_dates 100 [110] = Inl (ValueError no_date_msg)"
  by (simp add: filter_dates_def Let_def)

lemmas curve_defs =
  sampled_dtes_def sampled_ivs_def build_term_structure_def np_unique_def slope_0_45_def
  interp1d_linear_def searchsorted_def flags_def iv_rv_flag_def slope_flag_def
  expected_move_of_def Let_def

lemma yahoo_only_sampling:
  "yahoo_sampling 100 (options_chains yahoo_only [110, 150]) 0 \<lparr>atm_iv = [], straddle = None\<rparr> =
     \<lparr>atm_iv = [(110, 0.3), (150, 0.25)], straddle = Some (Some 3)\<rparr>"
  by (simp add: options_chains_def yahoo_only_def quoted_row_def nearest_row_def
      yahoo_record_def yahoo_straddle_def mid_def)

lemma reset_state:
  "(st :: run_state)\<lparr>atm_iv := [], straddle := None\<rparr> = \<lparr>atm_iv = [], straddle = None\<rparr>"
  by (cases st) simp

lemma yahoo_only_stage:
  "yahoo_stage yahoo_only 100 st =
     Inr \<lparr>avg_volume = True, iv30_rv30 = True, ts_slope_0_45 = False, expected_move = Some (Some 3)\<rparr>"
proof -
  have o: "yahoo_options yahoo_only = [110, 150]" "yahoo_last_close yahoo_only = Some 100"
    "yahoo_history yahoo_only = replicate 31 liquid_bar"
    by (simp_all add: yahoo_only_def)
  show ?thesis
    unfolding yahoo_stage_def o reset_state filter_dates_example liquid_history
    by (simp add: yahoo_only_sampling curve_defs)
qed

section \<open>Properties of the sampling loops\<close>

subsection \<open>The straddle\<close>

lemma alpaca_record_straddle:
  "straddle (alpaca_record e h st) =
     (case straddle st of
        None \<Rightarrow> map_option Some (alpaca_straddle (call_quote h) (put_quote h))
      | Some s \<Rightarrow> Some s)"
  by (simp add: alpaca_record_def Let_def split: option.splits)

lemma alpaca_sampling_keeps_straddle:
  "straddle st = Some s \<Longrightarrow> straddle (fst (alpaca_sampling m price exps st)) = Some s"
proof (induction exps arbitrary: st)
  case Nil
  then show ?case by simp
next
  case (Cons e exps)
  have k: "straddle (alpaca_record e h st) = Some s" for h
    using Cons.prems by (simp add: alpaca_record_straddle)
  show ?case
    using Cons.prems Cons.IH [OF Cons.prems] Cons.IH [OF k]
    by (simp split: option.splits)
qed

lemma yahoo_record_straddle:
  "straddle (yahoo_record e c p i st) =
     (if i = 0 then Some (yahoo_straddle c p) else straddle st)"
  by (simp add: yahoo_record_def Let_def)

lemma yahoo_sampling_later:
  "0 < i \<Longrightarrow> straddle (yahoo_sampling price chs i st) = straddle st"
proof (induction chs arbitrary: i st)
  case Nil
  then show ?case by simp
next
  case (Cons ch chs)
  obtain e chain where ch: "ch = (e, chain)" by (cases ch)
  have "straddle (yahoo_sampling price chs (i + 1) (yahoo_record e c p i st)) = straddle st"
    for c p
    using Cons.IH [of "i + 1" "yahoo_record e c p i st"] Cons.prems
    by (simp add: yahoo_record_straddle)
  then show ?case
    using Cons.IH [OF Cons.prems, of st]
    by (simp add: ch split: option.splits)
qed

lemma late_quotes_walk:
  "walk_strikes (option_snapshot late_quotes) (sorted_strikes 100 [(100, listed ''C1'' ''P1'')]) =
     Some \<lparr>hit_strike = 100, call_iv = 0.3, put_iv = 0.3,
           call_quote = Quote None (Some 2), put_quote = Quote (Some 1) (Some 2)\<rparr>"
  by (simp add: late_quotes_def yahoo_only_def listed_def sorted_strikes_def)

lemma late_quotes_sampling:
  "alpaca_sampling late_quotes 100 [110, 150] init_state =
     (\<lparr>atm_iv = [(110, 0.3), (150, 0.25)], straddle = Some (Some 8)\<rparr>, None)"
  by (simp add: late_quotes_def yahoo_only_def listed_def sorted_strikes_def init_state_def
      alpaca_record_def alpaca_straddle_def)

lemma late_quotes_fields:
  "alpaca_option_chain late_quotes =
     [(110, [(100, listed ''C1'' ''P1'')]), (150, [(100, listed ''C2'' ''P2'')])]"
  "underlying late_quotes = Some 100"
  "alpaca_bars late_quotes = replicate 31 liquid_bar"
  "yahoo_history late_quotes = replicate 31 liquid_bar"
  by (simp_all add: late_quotes_def yahoo_only_def underlying_def)

lemma late_quotes_dates:
  "filter_dates 100 (sort (map fst
     [(110::int, [(100::real, listed ''C1'' ''P1'')]), (150, [(100, listed ''C2'' ''P2'')])]))
   = Inr [110, 150]"
  using filter_dates_example by simp

lemma late_quotes_sampled:
  "alpaca_sampled late_quotes 100 =
     \<lparr>atm_iv = [(110, 0.3), (150, 0.25)], straddle = Some (Some 8)\<rparr>"
  unfolding alpaca_sampled_def late_quotes_fields late_quotes_dates sum.case option.case
    late_quotes_sampling
  by simp

lemma late_quotes_stage:
  "alpaca_stage late_quotes 100 init_state =
     Return (Inr \<lparr>avg_volume = True, iv30_rv30 = True, ts_slope_0_45 = False,
                  expected_move = Some (Some 8)\<rparr>)"
proof -
  have a: "alpaca_accept late_quotes 100 100
             \<lparr>atm_iv = [(110, 0.3), (150, 0.25)], straddle = Some (Some 8)\<rparr> =
      Return (Inr \<lparr>avg_volume = True, iv30_rv30 = True, ts_slope_0_45 = False,
                   expected_move = Some (Some 8)\<rparr>)"
    unfolding alpaca_accept_def late_quotes_fields liquid_history
    by (simp add: curve_defs)
  show ?thesis
    unfolding alpaca_stage_def late_quotes_fields late_quotes_dates sum.case option.case
      late_quotes_sampling
    using a by simp
qed

lemma late_quotes_run:
  "compute_recommendation late_quotes 100 =
     Inr \<lparr>avg_volume = True, iv30_rv30 = True, ts_slope_0_45 = False,
          expected_move = Some (Some 8)\<rparr>"
  by (simp add: compute_recommendation_def late_quotes_stage)

lemma late_quotes_yahoo_sampling:
  "yahoo_sampling 100 (options_chains late_quotes_yahoo [110, 150]) 0
     \<lparr>atm_iv = [], straddle = None\<rparr> =
   \<lparr>atm_iv = [(110, 0.3), (150, 0.25)], straddle = Some None\<rparr>"
  by (simp add: options_chains_def late_quotes_yahoo_def yahoo_only_def quoted_row_def
      unquoted_row_def nearest_row_def yahoo_record_def yahoo_straddle_def mid_def)

lemma late_quotes_yahoo_run:
  "compute_recommendation late_quotes_yahoo 100 =
     Inr \<lparr>avg_volume = True, iv30_rv30 = True, ts_slope_0_45 = False, expected_move = Some None\<rparr>"
proof -
  have o: "yahoo_options late_quotes_yahoo = [110, 150]"
    "yahoo_last_close late_quotes_yahoo = Some 100"
    "yahoo_history late_quotes_yahoo = replicate 31 liquid_bar"
    by (simp_all add: late_quotes_yahoo_def yahoo_only_def)
  have y: "yahoo_stage late_quotes_yahoo 100 st =
     Inr \<lparr>avg_volume = True, iv30_rv30 = True, ts_slope_0_45 = False, expected_move = Some None\<rparr>"
    for st
    unfolding yahoo_stage_def o reset_state filter_dates_example liquid_history
    by (simp add: late_quotes_yahoo_sampling curve_defs)
  have "alpaca_stage late_quotes_yahoo 100 init_state = FallThrough init_state"
    by (simp add: alpaca_stage_def late_quotes_yahoo_def yahoo_only_def)
  then show ?thesis by (simp add: compute_recommendation_def y)
qed

text \<open>
  Claim C3 at the market \<open>late_quotes\<close>, run on day 100. Alpaca samples the expirations of
  day 110 and day 150. The sample of day 110, the first, has a call quote without a bid, so
  that no straddle can be computed from it. The claim leaves the straddle undefined for the
  whole run; the Alpaca loop, whose guard is \<^verbatim>\<open>if straddle is None\<close> (line 191), tries
  again at day 150 and the run reports the straddle 8 of that later expiration as the
  expected move. The Yahoo loop, whose guard is \<^verbatim>\<open>if i == 0\<close> (line 327), does not try
  again: on the same quotes from Yahoo (\<open>late_quotes_yahoo\<close>) the straddle of the first
  sample, \<^verbatim>\<open>nan\<close>, stays.
\<close>

theorem straddle_retried_at_late_quotes:
  "walk_strikes (option_snapshot late_quotes) (sorted_strikes 100 [(100, listed ''C1'' ''P1'')]) =
     Some \<lparr>hit_strike = 100, call_iv = 0.3, put_iv = 0.3,
           call_quote = Quote None (Some 2), put_quote = Quote (Some 1) (Some 2)\<rparr>
   \<and> alpaca_straddle (Quote None (Some 2)) (Quote (Some 1) (Some 2)) = None
   \<and> alpaca_sampled late_quotes 100 =
       \<lparr>atm_iv = [(110, 0.3), (150, 0.25)], straddle = Some (Some 8)\<rparr>
   \<and> compute_recommendation late_quotes 100 =
       Inr \<lparr>avg_volume = True, iv30_rv30 = True, ts_slope_0_45 = False,
            expected_move = Some (Some 8)\<rparr>
   \<and> compute_recommendation late_quotes_yahoo 100 =
       Inr \<lparr>avg_volume = True, iv30_rv30 = True, ts_slope_0_45 = False,
            expected_move = Some None\<rparr>"
proof -
  have "alpaca_straddle (Quote None (Some 2)) (Quote (Some 1) (Some 2)) = None"
    by (simp add: alpaca_straddle_def)
  then show ?thesis
    by (intro conjI late_quotes_walk late_quotes_sampled late_quotes_run late_quotes_yahoo_run)
qed

subsection \<open>The at-the-money sample\<close>

lemma alpaca_record_sample:
  "map_of (atm_iv (alpaca_record e h st)) e = Some ((call_iv h + put_iv h) / 2)"
  by (simp add: alpaca_record_def Let_def update_conv)

lemma yahoo_record_sample:
  "map_of (atm_iv (yahoo_record e c p i st)) e =
     Some ((impliedVolatility c + impliedVolatility p) / 2)"
  by (simp add: yahoo_record_def Let_def update_conv)

lemma split_nearest:
  "nearest_row 100 [quoted_row 95 0.2, quoted_row 100 0.3] = Some (quoted_row 100 0.3)"
  "nearest_row 100 [quoted_row 90 0.5, quoted_row 95 0.6] = Some (quoted_row 95 0.6)"
  by (simp_all add: nearest_row_def quoted_row_def)

lemma split_market_sampling:
  "yahoo_sampling 100 (options_chains split_market [110, 150]) 0 \<lparr>atm_iv = [], straddle = None\<rparr> =
     \<lparr>atm_iv = [(110, 0.45), (150, 0.25)], straddle = Some (Some 3)\<rparr>"
  by (simp add: options_chains_def split_market_def split_strikes_def yahoo_only_def
      quoted_row_def nearest_row_def yahoo_record_def yahoo_straddle_def mid_def)

lemma split_market_run:
  "compute_recommendation split_market 100 =
     Inr \<lparr>avg_volume = True, iv30_rv30 = True, ts_slope_0_45 = True,
          expected_move = Some (Some 3)\<rparr>"
proof -
  have o: "yahoo_options split_market = [110, 150]"
    "yahoo_last_close split_market = Some 100"
    "yahoo_history split_market = replicate 31 liquid_bar"
    by (simp_all add: split_market_def yahoo_only_def)
  have y: "yahoo_stage split_market 100 st =
     Inr \<lparr>avg_volume = True, iv30_rv30 = True, ts_slope_0_45 = True,
          expected_move = Some (Some 3)\<rparr>" for st
    unfolding yahoo_stage_def o reset_state filter_dates_example liquid_history
    by (simp add: split_market_sampling curve_defs)
  have "alpaca_stage split_market 100 init_state = FallThrough init_state"
    by (simp add: alpaca_stage_def split_market_def yahoo_only_def)
  then show ?thesis by (simp add: compute_recommendation_def y)
qed

lemma split_listing_fields:
  "alpaca_option_chain split_listing =
     [(110, [(90, \<lparr>call = None, put = Some ''P90''\<rparr>),
             (95, listed ''C95'' ''P95''),
             (100, \<lparr>call = Some ''C100'', put = None\<rparr>)]),
      (150, [(100, listed ''C2'' ''P2'')])]"
  "underlying split_listing = Some 100"
  "alpaca_bars split_listing = replicate 31 liquid_bar"
  "yahoo_history split_listing = replicate 31 liquid_bar"
  by (simp_all add: split_listing_def yahoo_only_def underlying_def)

lemma split_listing_dates:
  "filter_dates 100 (sort (map fst
     [(110::int, [(90::real, \<lparr>call = None, put = Some ''P90''\<rparr>),
             (95, listed ''C95'' ''P95''),
             (100, \<lparr>call = Some ''C100'', put = None\<rparr>)]),
      (150, [(100, listed ''C2'' ''P2'')])]))
   = Inr [110, 150]"
  using filter_dates_example by simp

lemma split_listing_ranking:
  "sorted_strikes 100 [(90, \<lparr>call = None, put = Some ''P90''\<rparr>),
                       (95, listed ''C95'' ''P95''),
                       (100, \<lparr>call = Some ''C100'', put = None\<rparr>)] =
     [(100, \<lparr>call = Some ''C100'', put = None\<rparr>),
      (95, listed ''C95'' ''P95''),
      (90, \<lparr>call = None, put = Some ''P90''\<rparr>)]"
  by (simp add: sorted_strikes_def)

lemma split_listing_walk:
  "walk_strikes (option_snapshot split_listing)
     [(100, \<lparr>call = Some ''C100'', put = None\<rparr>),
      (95, listed ''C95'' ''P95''),
      (90, \<lparr>call = None, put = Some ''P90''\<rparr>)] =
     Some \<lparr>hit_strike = 95, call_iv = 0.2, put_iv = 0.6,
           call_quote = Quote (Some 1) (Some 2), put_quote = Quote (Some 1) (Some 2)\<rparr>"
  by (simp add: split_listing_def yahoo_only_def listed_def)

lemma split_listing_sampling:
  "alpaca_sampling split_listing 100 [110, 150] init_state =
     (\<lparr>atm_iv = [(110, 0.4), (150, 0.25)], straddle = Some (Some 3)\<rparr>, None)"
  by (simp add: split_listing_def yahoo_only_def listed_def sorted_strikes_def init_state_def
      alpaca_record_def alpaca_straddle_def)

lemma split_listing_sampled:
  "alpaca_sampled split_listing 100 =
     \<lparr>atm_iv = [(110, 0.4), (150, 0.25)], straddle = Some (Some 3)\<rparr>"
  unfolding alpaca_sampled_def split_listing_fields split_listing_dates sum.case option.case
    split_listing_sampling
  by simp

lemma split_listing_run:
  "compute_recommendation split_listing 100 =
     Inr \<lparr>avg_volume = True, iv30_rv30 = True, ts_slope_0_45 = False,
          expected_move = Some (Some 3)\<rparr>"
proof -
  have a: "alpaca_accept split_listing 100 100
             \<lparr>atm_iv = [(110, 0.4), (150, 0.25)], straddle = Some (Some 3)\<rparr> =
      Return (Inr \<lparr>avg_volume = True, iv30_rv30 = True, ts_slope_0_45 = False,
                   expected_move = Some (Some 3)\<rparr>)"
    unfolding alpaca_accept_def split_listing_fields liquid_history
    by (simp add: curve_defs)
  have "alpaca_stage split_listing 100 init_state =
      Return (Inr \<lparr>avg_volume = True, iv30_rv30 = True, ts_slope_0_45 = False,
                   expected_move = Some (Some 3)\<rparr>)"
    unfolding alpaca_stage_def split_listing_fields split_listing_dates sum.case option.case
      split_listing_sampling
    using a by simp
  then show ?thesis by (simp add: compute_recommendation_def)
qed

text \<open>
  Claim C4 at the market \<open>split_market\<close>, run on day 100 with the underlying price 100. At
  the expiration of day 110 Yahoo lists calls at the strikes 95 and 100 and puts at the
  strikes 90 and 95. The claim walks the strikes ranked 100, 95, 90 to the first with both
  a call and a put, the strike 95, and records the mean 0.4 of its two volatilities. The
  Yahoo loop takes the call nearest the price (strike 100, volatility 0.3) and the put
  nearest the price (strike 95, volatility 0.6) by two independent \<^verbatim>\<open>idxmin\<close> (lines
  319 to 324) and records 0.45, a mean over two strikes; the slope flag of the run comes
  out true. The Alpaca loop on the same listing (\<open>split_listing\<close>) does what the claim
  says: it ranks the strikes 100, 95, 90, skips the strike 100, which has no put, records
  0.4 at the strike 95, and the slope flag comes out false.
\<close>

theorem atm_two_strikes_at_split_market:
  "nearest_row 100 [quoted_row 95 0.2, quoted_row 100 0.3] = Some (quoted_row 100 0.3)
   \<and> nearest_row 100 [quoted_row 90 0.5, quoted_row 95 0.6] = Some (quoted_row 95 0.6)
   \<and> yahoo_sampling 100 (options_chains split_market [110, 150]) 0
         \<lparr>atm_iv = [], straddle = None\<rparr> =
       \<lparr>atm_iv = [(110, 0.45), (150, 0.25)], straddle = Some (Some 3)\<rparr>
   \<and> compute_recommendation split_market 100 =
       Inr \<lparr>avg_volume = True, iv30_rv30 = True, ts_slope_0_45 = True,
            expected_move = Some (Some 3)\<rparr>
   \<and> sorted_strikes 100 [(90, \<lparr>call = None, put = Some ''P90''\<rparr>),
                         (95, listed ''C95'' ''P95''),
                         (100, \<lparr>call = Some ''C100'', put = None\<rparr>)] =
       [(100, \<lparr>call = Some ''C100'', put = None\<rparr>),
        (95, listed ''C95'' ''P95''),
        (90, \<lparr>call = None, put = Some ''P90''\<rparr>)]
   \<and> walk_strikes (option_snapshot split_listing)
         [(100, \<lparr>call = Some ''C100'', put = None\<rparr>),
          (95, listed ''C95'' ''P95''),
          (90, \<lparr>call = None, put = Some ''P90''\<rparr>)] =
       Some \<lparr>hit_strike = 95, call_iv = 0.2, put_iv = 0.6,
             call_quote = Quote (Some 1) (Some 2), put_quote = Quote (Some 1) (Some 2)\<rparr>
   \<and> alpaca_sampled split_listing 100 =
       \<lparr>atm_iv = [(110, 0.4), (150, 0.25)], straddle = Some (Some 3)\<rparr>
   \<and> compute_recommendation split_listing 100 =
       Inr \<lparr>avg_volume = True, iv30_rv30 = True, ts_slope_0_45 = False,
            expected_move = Some (Some 3)\<rparr>"
  by (intro conjI split_nearest split_market_sampling split_market_run split_listing_ranking
      split_listing_walk split_listing_sampled split_listing_run)

subsection \<open>Too few daily bars\<close>

lemma yang_zhang_few_bars:
  assumes "length bars < 30"
  shows "yang_zhang 30 252 bars = (if bars = [] then Inl IndexError else Inr None)"
proof (cases "bars = []")
  case True
  then show ?thesis using yang_zhang_empty [of 30 252] by simp
next
  case False
  have "length bars \<le> 30" using assms by simp
  with False have "yang_zhang 30 252 bars = Inr None" by (rule yang_zhang_short) simp
  then show ?thesis using False by simp
qed

lemma alpaca_accept_needs_bars:
  assumes "length (alpaca_bars m) < 30 \<or> isl (latest_avg_volume (yahoo_history m))"
  shows "alpaca_accept m today price st = FallThrough st"
  using assms
  by (auto simp add: alpaca_accept_def Let_def isl_def split: sum.splits)

lemma alpaca_stage_needs_bars:
  assumes "length (alpaca_bars m) < 30 \<or> isl (latest_avg_volume (yahoo_history m))"
  shows "alpaca_stage m today st \<noteq> Return (Inr r)"
  by (simp add: alpaca_stage_def Let_def alpaca_accept_needs_bars [OF assms]
      split: sum.splits option.splits prod.splits)

lemma yahoo_stage_needs_bars:
  assumes "length (yahoo_history m) < 30"
  shows "isl (yahoo_stage m today st)"
  by (simp add: yahoo_stage_def Let_def latest_avg_volume_short [OF assms]
      split: sum.splits option.splits)

lemma run_needs_bars:
  assumes "length (yahoo_history m) < 30"
  shows "isl (compute_recommendation m today)"
proof (cases "alpaca_stage m today init_state")
  case (Return r)
  have "isl (latest_avg_volume (yahoo_history m))"
    by (simp add: latest_avg_volume_short [OF assms])
  then have "alpaca_stage m today init_state \<noteq> Return (Inr x)" for x
    by (intro alpaca_stage_needs_bars) simp
  then have "isl r" using Return by (cases r) auto
  then show ?thesis by (simp add: compute_recommendation_def Return)
next
  case (FallThrough st)
  then show ?thesis
    by (simp add: compute_recommendation_def yahoo_stage_needs_bars [OF assms])
qed

lemma thin_history_run: "compute_recommendation thin_history 100 = Inl (Uncaught IndexError)"
proof -
  have o: "alpaca_option_chain thin_history =
             [(110, [(100, listed ''C1'' ''P1'')]), (150, [(100, listed ''C2'' ''P2'')])]"
    "underlying thin_history = Some 100"
    "alpaca_bars thin_history = replicate 29 liquid_bar"
    "yahoo_history thin_history = replicate 29 liquid_bar"
    "yahoo_options thin_history = [110, 150]"
    "yahoo_last_close thin_history = Some 100"
    by (simp_all add: thin_history_def late_quotes_def yahoo_only_def underlying_def)
  have f: "filter_dates 100 (sort (map fst
             [(110::int, [(100::real, listed ''C1'' ''P1'')]), (150, [(100, listed ''C2'' ''P2'')])]))
           = Inr [110, 150]"
    using filter_dates_example by simp
  have s: "alpaca_sampling thin_history 100 [110, 150] init_state =
     (\<lparr>atm_iv = [(110, 0.3), (150, 0.25)], straddle = Some (Some 8)\<rparr>, None)"
    by (simp add: thin_history_def late_quotes_def yahoo_only_def listed_def sorted_strikes_def
        init_state_def alpaca_record_def alpaca_straddle_def)
  have a: "alpaca_accept thin_history 100 100 st = FallThrough st" for st
    by (rule alpaca_accept_needs_bars) (simp add: o)
  have 1: "alpaca_stage thin_history 100 init_state =
             FallThrough \<lparr>atm_iv = [(110, 0.3), (150, 0.25)], straddle = Some (Some 8)\<rparr>"
    unfolding alpaca_stage_def o f sum.case option.case s a by simp
  have y: "yahoo_sampling 100 (options_chains thin_history [110, 150]) 0
             \<lparr>atm_iv = [], straddle = None\<rparr> =
           \<lparr>atm_iv = [(110, 0.3), (150, 0.25)], straddle = Some (Some 3)\<rparr>"
    by (simp add: options_chains_def thin_history_def late_quotes_def yahoo_only_def
        quoted_row_def nearest_row_def yahoo_record_def yahoo_straddle_def mid_def)
  have z: "yang_zhang 30 252 (replicate 29 liquid_bar) = Inr None"
    using yang_zhang_few_bars [of "replicate 29 liquid_bar"] by simp
  have v: "latest_avg_volume (replicate 29 liquid_bar) = Inl IndexError"
    by (rule latest_avg_volume_short) simp
  have 2: "yahoo_stage thin_history 100 st = Inl (Uncaught IndexError)" for st
    unfolding yahoo_stage_def o reset_state filter_dates_example z v
    by (simp add: y curve_defs)
  show ?thesis by (simp add: compute_recommendation_def 1 2)
qed

text \<open>
  Claim C9. With fewer than 30 daily bars \<^verbatim>\<open>yang_zhang\<close> has no defined value at the
  latest date (it raises on an empty table) and neither has the 30-day average volume.
  The Alpaca part of a run returns no flags from fewer than 30 Alpaca bars (line 260) and
  hands over to Yahoo; with fewer than 30 bars of Yahoo history the Yahoo part, and with
  it the whole run, ends in a failure and returns no flags.
\<close>

theorem insufficient_history_fails:
  "(length bars < 30 \<longrightarrow>
      yang_zhang 30 252 bars = (if bars = [] then Inl IndexError else Inr None)
      \<and> latest_avg_volume bars = Inl IndexError)
   \<and> (length (alpaca_bars m) < 30 \<longrightarrow> (\<forall>r. alpaca_stage m today st \<noteq> Return (Inr r)))
   \<and> (length (yahoo_history m) < 30 \<longrightarrow>
        isl (yahoo_stage m today st) \<and> isl (compute_recommendation m today))"
  using yang_zhang_few_bars [of bars] latest_avg_volume_short [of bars]
    alpaca_stage_needs_bars [of m today st] yahoo_stage_needs_bars [of m today st]
    run_needs_bars [of m today]
  by blast

theorem insufficient_history_fails_witness:
  "yang_zhang 30 252 (replicate 29 liquid_bar) = Inr None
   \<and> latest_avg_volume (replicate 29 liquid_bar) = Inl IndexError
   \<and> (\<forall>r. alpaca_stage thin_history 100 init_state \<noteq> Return (Inr r))
   \<and> isl (yahoo_stage thin_history 100 init_state)
   \<and> isl (compute_recommendation thin_history 100)
   \<and> compute_recommendation thin_history 100 = Inl (Uncaught IndexError)"
proof -
  have b: "length (replicate 29 liquid_bar) < 30" by simp
  have a: "length (alpaca_bars thin_history) < 30"
    and y: "length (yahoo_history thin_history) < 30"
    by (simp_all add: thin_history_def)
  have n: "replicate 29 liquid_bar \<noteq> []" by simp
  note t = insufficient_history_fails [of "replicate 29 liquid_bar" thin_history 100 init_state]
  have c1: "yang_zhang 30 252 (replicate 29 liquid_bar) = Inr None"
    using t [THEN conjunct1, THEN mp, OF b, THEN conjunct1] n by (simp only: if_False)
  have c2: "latest_avg_volume (replicate 29 liquid_bar) = Inl IndexError"
    using t [THEN conjunct1, THEN mp, OF b, THEN conjunct2] .
  have c3: "\<forall>r. alpaca_stage thin_history 100 init_state \<noteq> Return (Inr r)"
    using t [THEN conjunct2, THEN conjunct1, THEN mp, OF a] .
  have c4: "isl (yahoo_stage thin_history 100 init_state)
            \<and> isl (compute_recommendation thin_history 100)"
    using t [THEN conjunct2, THEN conjunct2, THEN mp, OF y] .
  show ?thesis using c1 c2 c3 c4 thin_history_run by blast
qed

subsection \<open>The divisor of the slope\<close>

lemma cutoff_prefix_take:
  "cutoff_prefix c ds = take (Suc (length (takeWhile (\<lambda>d. d < c) (sort ds)))) (sort ds)"
proof -
  let ?s = "sort ds" and ?P = "\<lambda>d. d < c"
  let ?n = "length (takeWhile ?P ?s)"
  have "take (?n + 1) ?s = take ?n ?s @ take 1 (drop ?n ?s)" by (rule take_add)
  also have "take ?n ?s = takeWhile ?P ?s" by (rule takeWhile_eq_take [symmetric])
  also have "drop ?n ?s = dropWhile ?P ?s" by (rule dropWhile_eq_drop [symmetric])
  finally show ?thesis by (simp add: cutoff_prefix_def Let_def)
qed

lemma cutoff_prefix_shape:
  assumes "\<exists>d \<in> set ds. c \<le> d"
  shows "sorted (cutoff_prefix c ds)" and "\<forall>y \<in> set (butlast (cutoff_prefix c ds)). y < c"
proof -
  show "sorted (cutoff_prefix c ds)"
    unfolding cutoff_prefix_take by (simp add: sorted_wrt_take)
  let ?rest = "dropWhile (\<lambda>d. d < c) (sort ds)"
  have "?rest \<noteq> []" using assms by (rule dropWhile_below_cutoff)
  then have "take 1 ?rest = [hd ?rest]" by (cases ?rest) simp_all
  then have "butlast (cutoff_prefix c ds) = takeWhile (\<lambda>d. d < c) (sort ds)"
    by (simp add: cutoff_prefix_def Let_def butlast_append)
  then show "\<forall>y \<in> set (butlast (cutoff_prefix c ds)). y < c"
    by (auto dest: set_takeWhileD)
qed

lemma filter_dates_shape:
  assumes "filter_dates today ds = Inr fd"
  shows "sorted fd" and "\<forall>y \<in> set (butlast fd). y < today + 45"
proof -
  let ?p = "cutoff_prefix (today + 45) ds"
  have ex: "\<exists>d \<in> set ds. today + 45 \<le> d"
    using assms by (auto simp add: filter_dates_def Let_def scan_dates_prefix split: if_splits)
  then have fd: "fd = ?p \<or> fd = tl ?p"
    using assms by (auto simp add: filter_dates_def Let_def scan_dates_prefix split: if_splits)
  note s = cutoff_prefix_shape [OF ex]
  have "sorted (tl ?p)" using s(1) by (rule sorted_tl)
  then show "sorted fd" using fd s(1) by auto
  have "set (butlast (tl ?p)) \<subseteq> set (butlast ?p)"
    by (cases ?p) (auto simp add: butlast_tl [symmetric] dest: in_set_butlastD)
  then show "\<forall>y \<in> set (butlast fd). y < today + 45" using fd s(2) by auto
qed

lemma first_key_before_cutoff:
  assumes sk: "sorted keys" and sub: "set keys \<subseteq> set fd"
    and sf: "sorted fd" and bl: "\<forall>y \<in> set (butlast fd). y < (c::int)"
    and k: "k \<in> set keys" "k \<noteq> hd keys"
  shows "hd keys < c"
proof (rule ccontr)
  assume n: "\<not> hd keys < c"
  have ne: "keys \<noteq> []" using k(1) by auto
  then have h: "hd keys \<in> set keys" by simp
  have "hd keys \<le> k" using sk k(1) ne by (cases keys) auto
  then have lt: "hd keys < k" using k(2) by simp
  have fne: "fd \<noteq> []" using h sub by auto
  then have d: "fd = butlast fd @ [last fd]" by simp
  have "hd keys \<in> set (butlast fd @ [last fd])" using h sub d by auto
  then have "hd keys \<in> set (butlast fd) \<or> hd keys = last fd" by auto
  then have e: "hd keys = last fd" using bl n by auto
  have "sorted (butlast fd @ [last fd])" using sf d by simp
  then have "\<forall>x \<in> set (butlast fd). x \<le> last fd" by (simp add: sorted_append)
  moreover have "k \<in> set (butlast fd @ [last fd])" using k(1) sub d by auto
  ultimately have "k \<le> last fd" by auto
  then show False using lt e by simp
qed

lemma keys_after_update:
  assumes "sorted (map fst al @ e # exps)"
  shows "sorted (map fst (AList.update e v al) @ exps)"
    and "set (map fst (AList.update e v al)) \<subseteq> set (map fst al) \<union> set (e # exps)"
proof -
  have "sorted (map fst al @ exps)" using assms by (auto simp add: sorted_append)
  moreover have "sorted ((map fst al @ [e]) @ exps)" using assms by simp
  ultimately show "sorted (map fst (AList.update e v al) @ exps)"
    by (simp add: update_keys)
  show "set (map fst (AList.update e v al)) \<subseteq> set (map fst al) \<union> set (e # exps)"
    by (auto simp add: update_keys)
qed

lemma atm_iv_alpaca_record:
  "atm_iv (alpaca_record e h st) = AList.update e ((call_iv h + put_iv h) / 2) (atm_iv st)"
  by (simp add: alpaca_record_def Let_def)

lemma atm_iv_yahoo_record:
  "atm_iv (yahoo_record e c p i st) =
     AList.update e ((impliedVolatility c + impliedVolatility p) / 2) (atm_iv st)"
  by (simp add: yahoo_record_def Let_def split: option.splits)

lemma alpaca_sampling_keys:
  assumes "sorted (map fst (atm_iv st) @ exps)"
  shows "sorted (map fst (atm_iv (fst (alpaca_sampling m price exps st))))
         \<and> set (map fst (atm_iv (fst (alpaca_sampling m price exps st))))
             \<subseteq> set (map fst (atm_iv st)) \<union> set exps"
  using assms
proof (induction exps arbitrary: st)
  case Nil
  then show ?case by simp
next
  case (Cons e exps)
  have skip: "sorted (map fst (atm_iv st) @ exps)"
    using Cons.prems by (auto simp add: sorted_append)
  note i1 = Cons.IH [OF skip]
  have i2: "sorted (map fst (atm_iv (fst (alpaca_sampling m price exps (alpaca_record e h st)))))
         \<and> set (map fst (atm_iv (fst (alpaca_sampling m price exps (alpaca_record e h st)))))
             \<subseteq> set (map fst (atm_iv st)) \<union> set (e # exps)" for h
  proof -
    let ?st = "alpaca_record e h st"
    have "sorted (map fst (atm_iv ?st) @ exps)"
      unfolding atm_iv_alpaca_record using Cons.prems by (rule keys_after_update)
    from Cons.IH [OF this]
    have "sorted (map fst (atm_iv (fst (alpaca_sampling m price exps ?st))))"
      and "set (map fst (atm_iv (fst (alpaca_sampling m price exps ?st))))
             \<subseteq> set (map fst (atm_iv ?st)) \<union> set exps" by blast+
    moreover have "set (map fst (atm_iv ?st)) \<subseteq> set (map fst (atm_iv st)) \<union> set (e # exps)"
      unfolding atm_iv_alpaca_record using Cons.prems by (rule keys_after_update)
    ultimately show ?thesis by auto
  qed
  show ?case
  proof (cases "map_of (alpaca_option_chain m) e")
    case None
    then show ?thesis using skip by (auto simp add: sorted_append)
  next
    case (Some table)
    show ?thesis
    proof (cases "walk_strikes (option_snapshot m) (sorted_strikes price table)")
      case None
      then show ?thesis using Some i1 by auto
    next
      case (Some h)
      then show ?thesis using \<open>map_of (alpaca_option_chain m) e = Some table\<close> i1 i2 [of h]
        by auto
    qed
  qed
qed

lemma yahoo_sampling_keys:
  assumes "sorted (map fst (atm_iv st) @ map fst chs)"
  shows "sorted (map fst (atm_iv (yahoo_sampling price chs i st)))
         \<and> set (map fst (atm_iv (yahoo_sampling price chs i st)))
             \<subseteq> set (map fst (atm_iv st)) \<union> set (map fst chs)"
  using assms
proof (induction chs arbitrary: st i)
  case Nil
  then show ?case by simp
next
  case (Cons ch chs)
  obtain e chain where ch: "ch = (e, chain)" by (cases ch)
  have pr: "sorted (map fst (atm_iv st) @ e # map fst chs)" using Cons.prems by (simp add: ch)
  have skip: "sorted (map fst (atm_iv st) @ map fst chs)"
    using pr by (auto simp add: sorted_append)
  note i1 = Cons.IH [OF skip]
  have i2: "sorted (map fst (atm_iv (yahoo_sampling price chs j (yahoo_record e c p i st))))
         \<and> set (map fst (atm_iv (yahoo_sampling price chs j (yahoo_record e c p i st))))
             \<subseteq> set (map fst (atm_iv st)) \<union> set (e # map fst chs)" for c p j
  proof -
    let ?st = "yahoo_record e c p i st"
    have "sorted (map fst (atm_iv ?st) @ map fst chs)"
      unfolding atm_iv_yahoo_record using pr by (rule keys_after_update)
    from Cons.IH [OF this, of j]
    have "sorted (map fst (atm_iv (yahoo_sampling price chs j ?st)))"
      and "set (map fst (atm_iv (yahoo_sampling price chs j ?st)))
             \<subseteq> set (map fst (atm_iv ?st)) \<union> set (map fst chs)" by blast+
    moreover have "set (map fst (atm_iv ?st)) \<subseteq> set (map fst (atm_iv st)) \<union> set (e # map fst chs)"
      unfolding atm_iv_yahoo_record using pr by (rule keys_after_update)
    ultimately show ?thesis by auto
  qed
  show ?case
    unfolding ch using i1 [of i] i2 [where j = "i + 1"]
    by (auto split: option.splits)
qed

lemma foldl_update_keys:
  assumes "sorted (map fst d @ exps)"
  shows "sorted (map fst (foldl (\<lambda>d e. AList.update e (f e) d) d exps))
         \<and> set (map fst (foldl (\<lambda>d e. AList.update e (f e) d) d exps))
             \<subseteq> set (map fst d) \<union> set exps"
  using assms
proof (induction exps arbitrary: d)
  case Nil
  then show ?case by simp
next
  case (Cons e exps)
  have "sorted (map fst (AList.update e (f e) d) @ exps)"
    using Cons.prems by (rule keys_after_update)
  from Cons.IH [OF this]
  have "sorted (map fst (foldl (\<lambda>d e. AList.update e (f e) d) (AList.update e (f e) d) exps))"
    and "set (map fst (foldl (\<lambda>d e. AList.update e (f e) d) (AList.update e (f e) d) exps))
           \<subseteq> set (map fst (AList.update e (f e) d)) \<union> set exps" by blast+
  moreover have "set (map fst (AList.update e (f e) d)) \<subseteq> set (map fst d) \<union> set (e # exps)"
    using Cons.prems by (rule keys_after_update)
  ultimately show ?case by auto
qed

lemma options_chains_keys:
  assumes "sorted fd"
  shows "sorted (map fst (options_chains m fd))"
    and "set (map fst (options_chains m fd)) \<subseteq> set fd"
  using foldl_update_keys [of "[]" fd "yahoo_option_chain m"] assms
  by (simp_all add: options_chains_def)

lemma sampled_dtes_keys: "sampled_dtes today al = map (\<lambda>e. e - today) (map fst al)"
  by (simp add: sampled_dtes_def case_prod_beta)

lemma reach_slope:
  assumes fd: "filter_dates today ds = Inr fd"
    and sk: "sorted (map fst al)" and sub: "set (map fst al) \<subseteq> set fd"
    and b: "build_term_structure (map real_of_int (sampled_dtes today al)) ivs = Inr ts"
  shows "sampled_dtes today al \<noteq> []"
    and "\<forall>d \<in> set (sampled_dtes today al). hd (sampled_dtes today al) \<le> d"
    and "hd (sampled_dtes today al) < 45"
proof -
  let ?keys = "map fst al"
  let ?g = "\<lambda>e. real_of_int (e - today)"
  obtain xs ys where ts: "ts = (xs, ys)" by (cases ts)
  have c: "2 \<le> card (set (map ?g ?keys))"
    using build_Inr_D(1) [OF b [unfolded ts]] by (simp add: sampled_dtes_keys comp_def)
  have ne: "?keys \<noteq> []"
  proof
    assume "?keys = []"
    then have "card (set (map ?g ?keys)) = 0" by simp
    then show False using c by simp
  qed
  then show d: "sampled_dtes today al \<noteq> []" by (simp add: sampled_dtes_keys)
  have "\<exists>k \<in> set ?keys. k \<noteq> hd ?keys"
  proof (rule ccontr)
    assume "\<not> (\<exists>k \<in> set ?keys. k \<noteq> hd ?keys)"
    then have "set (map ?g ?keys) \<subseteq> {?g (hd ?keys)}" by auto
    then have "card (set (map ?g ?keys)) \<le> card {?g (hd ?keys)}"
      by (intro card_mono) simp_all
    then show False using c by simp
  qed
  then obtain k where k: "k \<in> set ?keys" "k \<noteq> hd ?keys" by blast
  note sh = filter_dates_shape [OF fd]
  have "hd ?keys < today + 45"
    using sk sub sh k by (rule first_key_before_cutoff)
  moreover have h: "hd (sampled_dtes today al) = hd ?keys - today"
    using ne by (simp add: sampled_dtes_keys hd_map)
  ultimately show "hd (sampled_dtes today al) < 45" by simp
  have "sorted (map (\<lambda>e. e - today) ?keys)"
    using sk by (simp add: sorted_wrt_map del: map_map)
  then have "sorted (sampled_dtes today al)" by (simp only: sampled_dtes_keys)
  then show "\<forall>d \<in> set (sampled_dtes today al). hd (sampled_dtes today al) \<le> d"
    using d by (cases "sampled_dtes today al") auto
qed

lemma slope_0_45_value:
  assumes "dtes \<noteq> []" and "hd dtes < 45"
  shows "slope_0_45 ts dtes =
           Inr (map_option (\<lambda>x. x / real_of_int (45 - hd dtes))
                  (fl2 (-) (term_spline ts 45) (term_spline ts (real_of_int (hd dtes)))))"
  using assms by (cases dtes) (simp_all add: slope_0_45_def)

lemma init_keys: "map fst (atm_iv init_state) = []" "atm_iv (st\<lparr>atm_iv := [], straddle := x\<rparr>) = []"
  by (simp_all add: init_state_def)

lemma sampled_keys:
  assumes fd: "filter_dates today ds = Inr fd"
    and st: "st' = fst (alpaca_sampling m price fd init_state)
             \<or> st' = yahoo_sampling price (options_chains m fd) 0 (st\<lparr>atm_iv := [], straddle := None\<rparr>)"
  shows "sorted (map fst (atm_iv st'))" and "set (map fst (atm_iv st')) \<subseteq> set fd"
proof -
  have sf: "sorted fd" using fd by (rule filter_dates_shape)
  have a: "sorted (map fst (atm_iv init_state) @ fd)" using sf by (simp add: init_keys)
  note ka = alpaca_sampling_keys [OF a, of m price]
  have y: "sorted (map fst (atm_iv (st\<lparr>atm_iv := [], straddle := None\<rparr>))
             @ map fst (options_chains m fd))"
    using options_chains_keys(1) [OF sf, of m] by (simp add: init_keys)
  note ky = yahoo_sampling_keys [OF y, of price 0]
  show "sorted (map fst (atm_iv st'))" using st ka ky by auto
  have "set (map fst (atm_iv (fst (alpaca_sampling m price fd init_state)))) \<subseteq> set fd"
    using ka by (simp add: init_keys)
  moreover have "set (map fst (atm_iv (yahoo_sampling price (options_chains m fd) 0
                    (st\<lparr>atm_iv := [], straddle := None\<rparr>)))) \<subseteq> set (map fst (options_chains m fd))"
    using ky by (simp add: init_keys)
  then have "set (map fst (atm_iv (yahoo_sampling price (options_chains m fd) 0
                    (st\<lparr>atm_iv := [], straddle := None\<rparr>)))) \<subseteq> set fd"
    using options_chains_keys(2) [OF sf, of m] by (rule subset_trans)
  ultimately show "set (map fst (atm_iv st')) \<subseteq> set fd"
    using st by blast
qed

lemma yahoo_stage_division:
  "yahoo_stage m today st \<noteq> Inl (Uncaught ZeroDivisionError)"
proof
  assume a: "yahoo_stage m today st = Inl (Uncaught ZeroDivisionError)"
  have b: "build_term_structure days ivs \<noteq> Inl ZeroDivisionError" for days ivs
    by (simp add: build_term_structure_def Let_def)
  have z: "yang_zhang 30 252 h \<noteq> Inl ZeroDivisionError" for h
    by (simp add: yang_zhang_def Let_def)
  have v: "latest_avg_volume h \<noteq> Inl ZeroDivisionError" for h
    by (simp add: latest_avg_volume_def Let_def)
  from a obtain fd price ts where fd: "filter_dates today (yahoo_options m) = Inr fd"
    and bt: "build_term_structure
          (map real_of_int (sampled_dtes today (atm_iv (yahoo_sampling price
              (options_chains m fd) 0 (st\<lparr>atm_iv := [], straddle := None\<rparr>)))))
          (sampled_ivs (atm_iv (yahoo_sampling price
              (options_chains m fd) 0 (st\<lparr>atm_iv := [], straddle := None\<rparr>)))) = Inr ts"
    and sl: "slope_0_45 ts (sampled_dtes today (atm_iv (yahoo_sampling price
              (options_chains m fd) 0 (st\<lparr>atm_iv := [], straddle := None\<rparr>))))
             = Inl ZeroDivisionError"
    using b z v
    by (auto simp add: yahoo_stage_def Let_def split: if_splits sum.splits option.splits)
  let ?st = "yahoo_sampling price (options_chains m fd) 0 (st\<lparr>atm_iv := [], straddle := None\<rparr>)"
  have k: "sorted (map fst (atm_iv ?st))" "set (map fst (atm_iv ?st)) \<subseteq> set fd"
    using sampled_keys [OF fd, of ?st m price st] by simp_all
  note r = reach_slope [OF fd k bt]
  from slope_0_45_value [OF r(1) r(3), of ts] sl show False by simp
qed

text \<open>
  Claim C10. The slope is \<open>(term_spline(45) - term_spline(d0)) / (45 - d0)\<close> with \<open>d0\<close> the
  days to expiry of the first sample, which is the nearest one. In a run that reaches the
  slope, the samples were taken on the filtered expirations, under Alpaca or under Yahoo,
  and the term structure was built from at least two distinct days to expiry; then
  \<open>d0 < 45\<close>, the divisor is positive and the division raises nothing. The Yahoo part
  never ends in a \<^verbatim>\<open>ZeroDivisionError\<close>.
\<close>

theorem slope_divisor_positive:
  "(filter_dates today ds = Inr fd
    \<and> (st' = fst (alpaca_sampling m price fd init_state)
        \<or> st' = yahoo_sampling price (options_chains m fd) 0 (st\<lparr>atm_iv := [], straddle := None\<rparr>))
    \<and> build_term_structure (map real_of_int (sampled_dtes today (atm_iv st')))
          (sampled_ivs (atm_iv st')) = Inr ts
    \<longrightarrow> sampled_dtes today (atm_iv st') \<noteq> []
      \<and> (\<forall>d \<in> set (sampled_dtes today (atm_iv st')). hd (sampled_dtes today (atm_iv st')) \<le> d)
      \<and> 0 < 45 - hd (sampled_dtes today (atm_iv st'))
      \<and> slope_0_45 ts (sampled_dtes today (atm_iv st')) =
          Inr (map_option (\<lambda>x. x / real_of_int (45 - hd (sampled_dtes today (atm_iv st'))))
                 (fl2 (-) (term_spline ts 45)
                    (term_spline ts (real_of_int (hd (sampled_dtes today (atm_iv st'))))))))
   \<and> yahoo_stage m today st \<noteq> Inl (Uncaught ZeroDivisionError)"
proof (intro conjI impI)
  assume a: "filter_dates today ds = Inr fd
    \<and> (st' = fst (alpaca_sampling m price fd init_state)
        \<or> st' = yahoo_sampling price (options_chains m fd) 0 (st\<lparr>atm_iv := [], straddle := None\<rparr>))
    \<and> build_term_structure (map real_of_int (sampled_dtes today (atm_iv st')))
          (sampled_ivs (atm_iv st')) = Inr ts"
  then have fd: "filter_dates today ds = Inr fd" by blast
  from a have k: "sorted (map fst (atm_iv st'))" "set (map fst (atm_iv st')) \<subseteq> set fd"
    using sampled_keys [OF fd, of st' m price st] by blast+
  from a have bt: "build_term_structure (map real_of_int (sampled_dtes today (atm_iv st')))
          (sampled_ivs (atm_iv st')) = Inr ts" by blast
  note r = reach_slope [OF fd k bt]
  show "sampled_dtes today (atm_iv st') \<noteq> []" by (rule r(1))
  show "\<forall>d \<in> set (sampled_dtes today (atm_iv st')). hd (sampled_dtes today (atm_iv st')) \<le> d"
    by (rule r(2))
  show "0 < 45 - hd (sampled_dtes today (atm_iv st'))" using r(3) by simp
  show "slope_0_45 ts (sampled_dtes today (atm_iv st')) =
          Inr (map_option (\<lambda>x. x / real_of_int (45 - hd (sampled_dtes today (atm_iv st'))))
                 (fl2 (-) (term_spline ts 45)
                    (term_spline ts (real_of_int (hd (sampled_dtes today (atm_iv st')))))))"
    using r(1) r(3) by (rule slope_0_45_value)
next
  show "yahoo_stage m today st \<noteq> Inl (Uncaught ZeroDivisionError)"
    by (rule yahoo_stage_division)
qed

theorem slope_divisor_positive_witness:
  "filter_dates 100 [110, 150] = Inr [110, 150]
   \<and> fst (alpaca_sampling late_quotes 100 [110, 150] init_state) =
       \<lparr>atm_iv = [(110, 0.3), (150, 0.25)], straddle = Some (Some 8)\<rparr>
   \<and> sampled_dtes 100 [(110, 0.3), (150, 0.25)] = [10, 50]
   \<and> (0::int) < 45 - 10
   \<and> slope_0_45 ([10, 50], [0.3, 0.25]) [10, 50] = Inr (Some (- 0.00125))"
proof -
  let ?st = "\<lparr>atm_iv = [(110, 0.3), (150, 0.25)], straddle = Some (Some 8)\<rparr>"
  have s: "fst (alpaca_sampling late_quotes 100 [110, 150] init_state) = ?st"
    unfolding late_quotes_sampling by simp
  have d: "sampled_dtes 100 (atm_iv ?st) = [10, 50]" by (simp add: sampled_dtes_def)
  have i: "sampled_ivs (atm_iv ?st) = [0.3, 0.25]" by (simp add: sampled_ivs_def)
  have b: "build_term_structure (map real_of_int [10, 50]) [0.3, 0.25] = Inr ([10, 50], [0.3, 0.25])"
    by (simp add: build_term_structure_def np_unique_def)
  have h: "filter_dates 100 [110, 150] = Inr [110, 150]
    \<and> (?st = fst (alpaca_sampling late_quotes 100 [110, 150] init_state)
        \<or> ?st = yahoo_sampling 100 (options_chains late_quotes [110, 150]) 0
                  (init_state\<lparr>atm_iv := [], straddle := None\<rparr>))
    \<and> build_term_structure (map real_of_int (sampled_dtes 100 (atm_iv ?st)))
          (sampled_ivs (atm_iv ?st)) = Inr ([10, 50], [0.3, 0.25])"
    unfolding d i using filter_dates_example s b by simp
  note t = slope_divisor_positive [THEN conjunct1, THEN mp, OF h]
  have c1: "0 < 45 - hd (sampled_dtes 100 (atm_iv ?st))"
    using t [THEN conjunct2, THEN conjunct2, THEN conjunct1] .
  have c2: "slope_0_45 ([10, 50], [0.3, 0.25]) (sampled_dtes 100 (atm_iv ?st)) =
          Inr (map_option (\<lambda>x. x / real_of_int (45 - hd (sampled_dtes 100 (atm_iv ?st))))
                 (fl2 (-) (term_spline ([10, 50], [0.3, 0.25]) 45)
                    (term_spline ([10, 50], [0.3, 0.25])
                       (real_of_int (hd (sampled_dtes 100 (atm_iv ?st)))))))"
    using t [THEN conjunct2, THEN conjunct2, THEN conjunct2] .
  have v: "map_option (\<lambda>x. x / real_of_int (45 - hd [10, 50]))
                 (fl2 (-) (term_spline ([10, 50], [0.3, 0.25]) 45)
                    (term_spline ([10, 50], [0.3, 0.25]) (real_of_int (hd [10, 50]))))
           = Some (- 0.00125)"
    by (simp add: interp1d_linear_def searchsorted_def Let_def)
  have c3: "slope_0_45 ([10, 50], [0.3, 0.25]) [10, 50] = Inr (Some (- 0.00125))"
    using c2 unfolding d v .
  have c4: "sampled_dtes 100 [(110, 0.3), (150, 0.25)] = [10, 50]"
    by (simp add: sampled_dtes_def)
  have c5: "(0::int) < 45 - 10" using c1 unfolding d by simp
  show ?thesis by (intro conjI filter_dates_example s c4 c5 c3)
qed

subsection \<open>Falling back to the second provider\<close>

lemma alpaca_sampling_distinct:
  "distinct (map fst (atm_iv st)) \<Longrightarrow>
   distinct (map fst (atm_iv (fst (alpaca_sampling m price exps st))))"
proof (induction exps arbitrary: st)
  case Nil
  then show ?case by simp
next
  case (Cons e exps)
  have "distinct (map fst (atm_iv (alpaca_record e h st)))" for h
    unfolding atm_iv_alpaca_record using Cons.prems by (rule distinct_update)
  then have "distinct (map fst (atm_iv (fst (alpaca_sampling m price exps (alpaca_record e h st)))))"
    for h by (rule Cons.IH)
  then show ?case
    using Cons.prems Cons.IH [OF Cons.prems] by (simp split: option.splits)
qed

lemma alpaca_sampled_distinct: "distinct (map fst (atm_iv (alpaca_sampled m today)))"
proof -
  have i: "distinct (map fst (atm_iv init_state))" by (simp add: init_state_def)
  show ?thesis
    using i alpaca_sampling_distinct [OF i, of m]
    by (simp add: alpaca_sampled_def split: sum.splits option.splits)
qed

lemma alpaca_accept_cases:
  "alpaca_accept m today price st = FallThrough st
   \<or> (\<exists>r. alpaca_accept m today price st = Return (Inr r))"
  by (simp add: alpaca_accept_def Let_def split: sum.splits)

lemma alpaca_stage_accepts:
  assumes "alpaca_stage m today init_state = Return (Inr r)"
  shows "2 \<le> length (atm_iv (alpaca_sampled m today))"
proof -
  from assms obtain fd price where c: "alpaca_option_chain m \<noteq> []"
    and f: "filter_dates today (sort (map fst (alpaca_option_chain m))) = Inr fd"
    and u: "underlying m = Some price"
    by (auto simp add: alpaca_stage_def split: if_splits sum.splits option.splits)
  obtain st' raised where s: "alpaca_sampling m price fd init_state = (st', raised)"
    by (cases "alpaca_sampling m price fd init_state")
  have "2 \<le> length (atm_iv st')"
    using assms by (simp add: alpaca_stage_def c f u s split: if_splits)
  moreover have "alpaca_sampled m today = st'"
    by (simp add: alpaca_sampled_def c f u s)
  ultimately show ?thesis by simp
qed

lemma alpaca_stage_cases:
  "(alpaca_stage m today st = Return (Inl NotEnoughOptionData) \<and> alpaca_filter_fails m today)
   \<or> (\<exists>r. alpaca_stage m today st = Return (Inr r))
   \<or> (\<exists>st'. alpaca_stage m today st = FallThrough st')"
proof (cases "alpaca_option_chain m = []")
  case True
  then show ?thesis by (simp add: alpaca_stage_def)
next
  case c: False
  show ?thesis
  proof (cases "filter_dates today (sort (map fst (alpaca_option_chain m)))")
    case (Inl e)
    then show ?thesis using c by (simp add: alpaca_stage_def alpaca_filter_fails_def)
  next
    case (Inr fd)
    show ?thesis
    proof (cases "underlying m")
      case None
      then show ?thesis using c Inr by (simp add: alpaca_stage_def)
    next
      case (Some price)
      obtain st' raised where s: "alpaca_sampling m price fd st = (st', raised)"
        by (cases "alpaca_sampling m price fd st")
      show ?thesis
        using alpaca_accept_cases [of m today price st'] c Inr Some s
        by (auto simp add: alpaca_stage_def)
    qed
  qed
qed

lemma yahoo_stage_fresh: "yahoo_stage m today st = yahoo_stage m today init_state"
  unfolding yahoo_stage_def reset_state ..

lemma not_accepted_runs_yahoo:
  assumes "\<not> alpaca_filter_fails m today"
    and "\<forall>r. alpaca_stage m today init_state \<noteq> Return (Inr r)"
  shows "compute_recommendation m today = yahoo_stage m today init_state"
proof -
  from alpaca_stage_cases [of m today init_state] assms
  obtain st' where "alpaca_stage m today init_state = FallThrough st'" by blast
  then have "compute_recommendation m today = yahoo_stage m today st'"
    by (simp add: compute_recommendation_def)
  then show ?thesis using yahoo_stage_fresh [of m today st'] by simp
qed

lemma filter_failure_ends_run:
  assumes "alpaca_filter_fails m today"
  shows "compute_recommendation m today = Inl NotEnoughOptionData"
  using assms
  by (auto simp add: compute_recommendation_def alpaca_stage_def alpaca_filter_fails_def isl_def)

lemma yahoo_stage_reads:
  assumes "yahoo_options m = yahoo_options m'"
    and "yahoo_option_chain m = yahoo_option_chain m'"
    and "yahoo_last_close m = yahoo_last_close m'"
    and "yahoo_history m = yahoo_history m'"
  shows "yahoo_stage m today st = yahoo_stage m' today st"
  unfolding yahoo_stage_def options_chains_def assms ..

lemma yahoo_fields:
  "yahoo_stage late_quotes today st = yahoo_stage yahoo_only today st"
  "yahoo_stage single_sample today st = yahoo_stage yahoo_only today st"
  "yahoo_stage near_term_only today st = yahoo_stage yahoo_only today st"
  by (rule yahoo_stage_reads; simp add: single_sample_def late_quotes_def near_term_only_def)+

lemma single_sample_sampled:
  "alpaca_sampled single_sample 100 = \<lparr>atm_iv = [(110, 0.9)], straddle = Some (Some 8)\<rparr>"
proof -
  have o: "alpaca_option_chain single_sample =
             [(110, [(100, listed ''C1'' ''P1'')]), (150, [(100, listed ''C2'' ''P2'')])]"
    "underlying single_sample = Some 100"
    by (simp_all add: single_sample_def late_quotes_def yahoo_only_def underlying_def)
  have f: "filter_dates 100 (sort (map fst
             [(110::int, [(100::real, listed ''C1'' ''P1'')]), (150, [(100, listed ''C2'' ''P2'')])]))
           = Inr [110, 150]"
    using filter_dates_example by simp
  have s: "alpaca_sampling single_sample 100 [110, 150] init_state =
     (\<lparr>atm_iv = [(110, 0.9)], straddle = Some (Some 8)\<rparr>, None)"
    by (simp add: single_sample_def late_quotes_def yahoo_only_def listed_def sorted_strikes_def
        init_state_def alpaca_record_def alpaca_straddle_def)
  show ?thesis
    unfolding alpaca_sampled_def o f sum.case option.case s by simp
qed

lemma near_term_only_fails: "alpaca_filter_fails near_term_only 100"
proof -
  have o: "alpaca_option_chain near_term_only = [(110, [(100, listed ''C1'' ''P1'')])]"
    by (simp add: near_term_only_def yahoo_only_def)
  have f: "filter_dates 100 (sort (map fst [(110::int, [(100::real, listed ''C1'' ''P1'')])]))
           = Inl (ValueError no_date_msg)"
    using filter_dates_near_term by simp
  show ?thesis unfolding alpaca_filter_fails_def o f by simp
qed

lemma near_term_only_sampled: "alpaca_sampled near_term_only 100 = init_state"
proof -
  have o: "alpaca_option_chain near_term_only = [(110, [(100, listed ''C1'' ''P1'')])]"
    by (simp add: near_term_only_def yahoo_only_def)
  have f: "filter_dates 100 (sort (map fst [(110::int, [(100::real, listed ''C1'' ''P1'')])]))
           = Inl (ValueError no_date_msg)"
    using filter_dates_near_term by simp
  show ?thesis unfolding alpaca_sampled_def o f by simp
qed

lemma near_term_only_run:
  "compute_recommendation near_term_only 100 = Inl NotEnoughOptionData"
  using near_term_only_fails by (rule filter_failure_ends_run)

text \<open>
  Claim C1, as the code has it. The run returns flags computed from Alpaca data only if
  the Alpaca sampling yielded samples for at least two distinct expirations. When the
  expirations of the Alpaca chain pass the date filter and the Alpaca data is not
  accepted, in particular with fewer than two samples, the result of the run is the result
  of the Yahoo part started from the empty state: \<^verbatim>\<open>atm_iv\<close> and \<^verbatim>\<open>straddle\<close> are reset,
  so that whatever Alpaca collected has no influence. When Alpaca returns a chain no
  expiration of which is 45 days or more away, the run ends with
  \<^verbatim>\<open>"Error: Not enough option data."\<close> and Yahoo is not consulted.
\<close>

theorem dual_source_fallback:
  "(alpaca_stage m today init_state = Return (Inr r) \<longrightarrow>
      compute_recommendation m today = Inr r
      \<and> 2 \<le> length (atm_iv (alpaca_sampled m today))
      \<and> distinct (map fst (atm_iv (alpaca_sampled m today))))
   \<and> (\<not> alpaca_filter_fails m today \<and> length (atm_iv (alpaca_sampled m today)) < 2 \<longrightarrow>
        compute_recommendation m today = yahoo_stage m today init_state)
   \<and> (\<not> alpaca_filter_fails m today \<and> (\<forall>r. alpaca_stage m today init_state \<noteq> Return (Inr r)) \<longrightarrow>
        compute_recommendation m today = yahoo_stage m today init_state)
   \<and> yahoo_stage m today st = yahoo_stage m today init_state
   \<and> (alpaca_filter_fails m today \<longrightarrow> compute_recommendation m today = Inl NotEnoughOptionData)"
proof (intro conjI impI)
  assume a: "alpaca_stage m today init_state = Return (Inr r)"
  then show "compute_recommendation m today = Inr r" by (simp add: compute_recommendation_def)
  from a show "2 \<le> length (atm_iv (alpaca_sampled m today))" by (rule alpaca_stage_accepts)
  show "distinct (map fst (atm_iv (alpaca_sampled m today)))" by (rule alpaca_sampled_distinct)
next
  assume a: "\<not> alpaca_filter_fails m today \<and> length (atm_iv (alpaca_sampled m today)) < 2"
  have "alpaca_stage m today init_state \<noteq> Return (Inr x)" for x
    using alpaca_stage_accepts [of m today x] a by auto
  then show "compute_recommendation m today = yahoo_stage m today init_state"
    using a by (intro not_accepted_runs_yahoo) simp_all
next
  assume "\<not> alpaca_filter_fails m today \<and> (\<forall>r. alpaca_stage m today init_state \<noteq> Return (Inr r))"
  then show "compute_recommendation m today = yahoo_stage m today init_state"
    by (intro not_accepted_runs_yahoo) simp_all
next
  show "yahoo_stage m today st = yahoo_stage m today init_state" by (rule yahoo_stage_fresh)
next
  assume "alpaca_filter_fails m today"
  then show "compute_recommendation m today = Inl NotEnoughOptionData"
    by (rule filter_failure_ends_run)
qed

theorem dual_source_fallback_witness:
  "compute_recommendation late_quotes 100 =
     Inr \<lparr>avg_volume = True, iv30_rv30 = True, ts_slope_0_45 = False, expected_move = Some (Some 8)\<rparr>
   \<and> 2 \<le> length (atm_iv (alpaca_sampled late_quotes 100))
   \<and> alpaca_sampled single_sample 100 = \<lparr>atm_iv = [(110, 0.9)], straddle = Some (Some 8)\<rparr>
   \<and> compute_recommendation single_sample 100 =
       Inr \<lparr>avg_volume = True, iv30_rv30 = True, ts_slope_0_45 = False, expected_move = Some (Some 3)\<rparr>
   \<and> compute_recommendation near_term_only 100 = Inl NotEnoughOptionData"
proof -
  note a = dual_source_fallback [of late_quotes 100 _ init_state, THEN conjunct1, THEN mp,
      OF late_quotes_stage]
  have c1: "compute_recommendation late_quotes 100 =
     Inr \<lparr>avg_volume = True, iv30_rv30 = True, ts_slope_0_45 = False, expected_move = Some (Some 8)\<rparr>"
    using a [THEN conjunct1] .
  have c2: "2 \<le> length (atm_iv (alpaca_sampled late_quotes 100))"
    using a [THEN conjunct2, THEN conjunct1] .
  have n: "\<not> alpaca_filter_fails single_sample 100
           \<and> length (atm_iv (alpaca_sampled single_sample 100)) < 2"
    unfolding single_sample_sampled
    by (simp add: alpaca_filter_fails_def single_sample_def late_quotes_def yahoo_only_def
        filter_dates_def Let_def)
  have "compute_recommendation single_sample 100 = yahoo_stage single_sample 100 init_state"
    using dual_source_fallback [of single_sample 100 _ init_state, THEN conjunct2,
        THEN conjunct1, THEN mp, OF n] .
  then have c4: "compute_recommendation single_sample 100 =
       Inr \<lparr>avg_volume = True, iv30_rv30 = True, ts_slope_0_45 = False, expected_move = Some (Some 3)\<rparr>"
    unfolding yahoo_fields yahoo_only_stage .
  have c5: "compute_recommendation near_term_only 100 = Inl NotEnoughOptionData"
    using dual_source_fallback [of near_term_only 100 _ init_state, THEN conjunct2,
        THEN conjunct2, THEN conjunct2, THEN conjunct2, THEN mp, OF near_term_only_fails] .
  show ?thesis by (intro conjI c1 c2 single_sample_sampled c4 c5)
qed

text \<open>
  The claim as stated (with fewer than two Alpaca samples the pipeline is re-run against
  the second provider) fails when the Alpaca chain has no expiration 45 days or more away.
  In the market \<open>near_term_only\<close> Alpaca lists the expiration of day 110 only: no sample
  is taken, Yahoo alone would give the flags below, and the run returns
  \<^verbatim>\<open>"Error: Not enough option data."\<close> without consulting Yahoo.
\<close>

theorem no_fallback_counterexample:
  "length (atm_iv (alpaca_sampled near_term_only 100)) < 2
   \<and> yahoo_stage near_term_only 100 init_state =
       Inr \<lparr>avg_volume = True, iv30_rv30 = True, ts_slope_0_45 = False, expected_move = Some (Some 3)\<rparr>
   \<and> compute_recommendation near_term_only 100 = Inl NotEnoughOptionData"
  unfolding near_term_only_sampled near_term_only_run yahoo_fields yahoo_only_stage
  by (simp add: init_state_def)

subsection \<open>Exactly thirty bars\<close>

lemma thirty_bars_estimate: "yang_zhang 30 252 (replicate 30 liquid_bar) = Inr None"
proof -
  have "replicate 30 liquid_bar \<noteq> []" and "length (replicate 30 liquid_bar) \<le> 30"
    and "(30::nat) \<noteq> 1" by simp_all
  then show ?thesis by (rule yang_zhang_short)
qed

lemma thirty_bars_run:
  "compute_recommendation thirty_bars 100 =
     Inr \<lparr>avg_volume = True, iv30_rv30 = False, ts_slope_0_45 = False,
          expected_move = Some (Some 8)\<rparr>"
proof -
  have o: "alpaca_option_chain thirty_bars =
             [(110, [(100, listed ''C1'' ''P1'')]), (150, [(100, listed ''C2'' ''P2'')])]"
    "underlying thirty_bars = Some 100"
    "alpaca_bars thirty_bars = replicate 30 liquid_bar"
    "yahoo_history thirty_bars = replicate 31 liquid_bar"
    by (simp_all add: thirty_bars_def late_quotes_def yahoo_only_def underlying_def)
  have s: "alpaca_sampling thirty_bars 100 [110, 150] init_state =
     (\<lparr>atm_iv = [(110, 0.3), (150, 0.25)], straddle = Some (Some 8)\<rparr>, None)"
    by (simp add: thirty_bars_def late_quotes_def yahoo_only_def listed_def sorted_strikes_def
        init_state_def alpaca_record_def alpaca_straddle_def)
  have g: "replicate 30 liquid_bar \<noteq> [] \<and> 30 \<le> length (replicate 30 liquid_bar)" by simp
  have a: "alpaca_accept thirty_bars 100 100
             \<lparr>atm_iv = [(110, 0.3), (150, 0.25)], straddle = Some (Some 8)\<rparr> =
      Return (Inr \<lparr>avg_volume = True, iv30_rv30 = False, ts_slope_0_45 = False,
                   expected_move = Some (Some 8)\<rparr>)"
    unfolding alpaca_accept_def o thirty_bars_estimate liquid_history
    using g by (simp add: curve_defs)
  have "alpaca_stage thirty_bars 100 init_state =
      Return (Inr \<lparr>avg_volume = True, iv30_rv30 = False, ts_slope_0_45 = False,
                   expected_move = Some (Some 8)\<rparr>)"
    unfolding alpaca_stage_def o late_quotes_dates sum.case option.case s
    using a by simp
  then show ?thesis by (simp add: compute_recommendation_def)
qed

text \<open>
  Claim C8 at exactly \<open>window\<close> bars. Thirty equal bars with positive prices are a sequence
  of length \<open>\<ge> window\<close> for the default window 30, and the claim gives them the realized
  volatility 0. The code returns \<^verbatim>\<open>nan\<close>: \<^verbatim>\<open>log_oc\<close> and \<^verbatim>\<open>log_cc\<close> (lines 59 and 62) are
  taken against \<^verbatim>\<open>Close.shift(1)\<close> and are \<^verbatim>\<open>nan\<close> in the first row, so that the rolling
  sums over 30 rows are defined from the 31st bar only, where the value is 0 as claimed.
  The caller lets thirty bars through (line 260, \<^verbatim>\<open>len(bars_data) >= 30\<close>, "Need at least
  30 days for Yang-Zhang"): the run on \<open>thirty_bars\<close> returns flags in which the ratio of
  implied to realized volatility is compared with \<^verbatim>\<open>nan\<close> and fails, while the same market
  with 31 bars, \<open>late_quotes\<close>, passes it.
\<close>

theorem yang_zhang_at_thirty_bars:
  "length (replicate 30 liquid_bar) = 30
   \<and> constant_bar 100 liquid_bar \<and> positive_bar liquid_bar
   \<and> yang_zhang 30 252 (replicate 30 liquid_bar) = Inr None
   \<and> yang_zhang 30 252 (replicate 31 liquid_bar) = Inr (Some 0)
   \<and> compute_recommendation thirty_bars 100 =
       Inr \<lparr>avg_volume = True, iv30_rv30 = False, ts_slope_0_45 = False,
            expected_move = Some (Some 8)\<rparr>
   \<and> compute_recommendation late_quotes 100 =
       Inr \<lparr>avg_volume = True, iv30_rv30 = True, ts_slope_0_45 = False,
            expected_move = Some (Some 8)\<rparr>"
proof -
  have "length (replicate 30 liquid_bar) = 30" by simp
  moreover have "constant_bar 100 liquid_bar" "positive_bar liquid_bar"
    by (simp_all add: constant_bar_def positive_bar_def liquid_bar_def)
  ultimately show ?thesis
    by (intro conjI thirty_bars_estimate liquid_history(1) thirty_bars_run late_quotes_run)
qed

end
